theory Spec2Isabelle
  imports Main "HOL-Library.Sublist"
begin

section \<open>The LSF driver of the job queue (lsf\_driver.cpp)\<close>

subsection \<open>Status codes and the two status tables\<close>

text \<open>
  The backend status codes \<open>JOB_STAT_*\<close> are macros of the header
  \<^verbatim>\<open>ert/job_queue/lsf_job_stat.hpp\<close>, which is not among the sources. The functions
  below take the constants as a parameter; \<open>lsb_job_stat\<close> is the assignment of LSF's
  public \<^verbatim>\<open>lsbatch.h\<close>, used where a computation is run on concrete values.
\<close>

record job_stat =
  JOB_STAT_NULL :: int
  JOB_STAT_PEND :: int
  JOB_STAT_PSUSP :: int
  JOB_STAT_RUN :: int
  JOB_STAT_SSUSP :: int
  JOB_STAT_USUSP :: int
  JOB_STAT_EXIT :: int
  JOB_STAT_DONE :: int
  JOB_STAT_PDONE :: int
  JOB_STAT_UNKWN :: int

definition lsb_job_stat :: job_stat where
  "lsb_job_stat = \<lparr> JOB_STAT_NULL = 0, JOB_STAT_PEND = 1, JOB_STAT_PSUSP = 2,
     JOB_STAT_RUN = 4, JOB_STAT_SSUSP = 8, JOB_STAT_USUSP = 16, JOB_STAT_EXIT = 32,
     JOB_STAT_DONE = 64, JOB_STAT_PDONE = 128, JOB_STAT_UNKWN = 65536 \<rparr>"

text \<open>The normalized status of the queue layer (the values the driver produces).\<close>

datatype job_status_type =
    JOB_QUEUE_NOT_ACTIVE
  | JOB_QUEUE_PENDING
  | JOB_QUEUE_RUNNING
  | JOB_QUEUE_DONE
  | JOB_QUEUE_EXIT
  | JOB_QUEUE_UNKNOWN

text \<open>
  Every way the process stops instead of returning: \<open>util_abort\<close>, \<open>util_exit\<close>,
  \<open>exit(1)\<close>, a thrown \<open>exc::runtime_error\<close>, the dereference of a null string,
  and a write behind the end of a buffer (undefined in C: the model stops there and says
  nothing about what follows).
\<close>

datatype fatal =
    Util_abort string
  | Util_exit string
  | Exit int
  | Runtime_error string
  | Null_dereference
  | Buffer_overflow

text \<open>
  Both tables are \<open>std::map\<close>s built from an initializer list: of two entries with the
  same key the first one stays. \<open>map_of\<close> on the list in source order does the same.
\<close>

definition status_map_entries :: "job_stat \<Rightarrow> (string \<times> int) list" where
  "status_map_entries c =
     [(''PEND'', JOB_STAT_PEND c), (''SSUSP'', JOB_STAT_SSUSP c),
      (''PSUSP'', JOB_STAT_PSUSP c), (''USUSP'', JOB_STAT_USUSP c),
      (''RUN'', JOB_STAT_RUN c), (''EXIT'', JOB_STAT_EXIT c),
      (''ZOMBI'', JOB_STAT_EXIT c), (''DONE'', JOB_STAT_DONE c),
      (''PDONE'', JOB_STAT_PDONE c), (''UNKWN'', JOB_STAT_UNKWN c)]"

definition status_map :: "job_stat \<Rightarrow> string \<Rightarrow> int option" where
  "status_map c = map_of (status_map_entries c)"

definition convert_status_map_entries :: "job_stat \<Rightarrow> (int \<times> job_status_type) list" where
  "convert_status_map_entries c =
     [(JOB_STAT_NULL c, JOB_QUEUE_NOT_ACTIVE),
      (JOB_STAT_PEND c, JOB_QUEUE_PENDING),
      (JOB_STAT_SSUSP c, JOB_QUEUE_RUNNING),
      (JOB_STAT_USUSP c, JOB_QUEUE_RUNNING),
      (JOB_STAT_PSUSP c, JOB_QUEUE_RUNNING),
      (JOB_STAT_RUN c, JOB_QUEUE_RUNNING),
      (JOB_STAT_DONE c, JOB_QUEUE_DONE),
      (JOB_STAT_EXIT c, JOB_QUEUE_EXIT),
      (JOB_STAT_UNKWN c, JOB_QUEUE_UNKNOWN),
      (JOB_STAT_DONE c + JOB_STAT_PDONE c, JOB_QUEUE_DONE),
      (JOB_STAT_NULL c, JOB_QUEUE_NOT_ACTIVE),
      (JOB_STAT_NULL c, JOB_QUEUE_NOT_ACTIVE),
      (JOB_STAT_NULL c, JOB_QUEUE_NOT_ACTIVE)]"

definition convert_status_map :: "job_stat \<Rightarrow> int \<Rightarrow> job_status_type option" where
  "convert_status_map c = map_of (convert_status_map_entries c)"

definition lsf_driver_convert_status :: "job_stat \<Rightarrow> int \<Rightarrow> fatal + job_status_type" where
  "lsf_driver_convert_status c lsf_status =
     (case convert_status_map c lsf_status of
        Some job_status \<Rightarrow> Inr job_status
      | None \<Rightarrow> Inl (Runtime_error ''lsf_driver_convert_status: unrecognized lsf status code''))"

subsection \<open>Decimal output and scanning\<close>

text \<open>
  \<open>sprintf_d\<close> is the output of \<open>printf\<close>'s \<open>%d\<close> and \<open>%ld\<close>. Integers are
  modelled by \<open>int\<close>: the job ids, counters and core counts of the driver are far
  from the bounds of \<open>int\<close> and \<open>long\<close>, and no arithmetic is done on them.
\<close>

definition digit_char :: "nat \<Rightarrow> char" where
  "digit_char n = ''0123456789'' ! (n mod 10)"

fun string_of_nat :: "nat \<Rightarrow> string" where
  "string_of_nat n =
     (if n < 10 then [digit_char n] else string_of_nat (n div 10) @ [digit_char (n mod 10)])"

declare string_of_nat.simps [simp del]

definition sprintf_d :: "int \<Rightarrow> string" where
  "sprintf_d i = (if i < 0 then CHR ''-'' # string_of_nat (nat (- i)) else string_of_nat (nat i))"

text \<open>The characters \<open>isspace\<close> accepts in the C locale, and \<open>isdigit\<close>.\<close>

definition isspace :: "char \<Rightarrow> bool" where
  "isspace ch = (ch \<in> set [CHR '' '', CHR 0x09, CHR 0x0A, CHR 0x0B, CHR 0x0C, CHR 0x0D])"

definition isdigit :: "char \<Rightarrow> bool" where
  "isdigit ch = (ch \<in> set ''0123456789'')"

definition digit_val :: "char \<Rightarrow> nat" where
  "digit_val ch = of_char ch - 48"

definition nat_of_digits :: "string \<Rightarrow> nat" where
  "nat_of_digits ds = foldl (\<lambda>acc ch. 10 * acc + digit_val ch) 0 ds"

text \<open>
  One conversion of the \<open>scanf\<close> family on the rest of the input; each returns the
  converted value and the input left, or \<open>None\<close> when the conversion fails.
  \<open>%d\<close> skips white space, takes an optional sign and at least one digit;
  \<open>%s\<close> skips white space and takes the characters up to the next white space, at
  least one. A blank in the format skips white space, which the next conversion does
  anyway.

  The number is stored in an \<open>int\<close> of 32 bits. C leaves a number outside of it
  undefined; the model does what glibc does where \<open>long\<close> has 64 bits: the digits
  are converted as by \<open>strtol\<close>, which stops at \<open>LONG_MAX\<close> and \<open>LONG_MIN\<close>,
  and the \<open>long\<close> is cut to the low 32 bits (so 4294967338 is stored as 42). The same
  holds for \<open>int tmp_value = strtol(...)\<close>. \<open>scan_s\<close> returns the whole token; the
  caller says what happens to a token that does not fit its buffer.
\<close>

definition strtol_value :: "bool \<Rightarrow> nat \<Rightarrow> int" where
  "strtol_value neg n = (if neg then max (- (2 ^ 63)) (- int n) else min (2 ^ 63 - 1) (int n))"

definition int_of_long :: "int \<Rightarrow> int" where
  "int_of_long v = (v + 2 ^ 31) mod 2 ^ 32 - 2 ^ 31"

definition scan_d :: "string \<Rightarrow> (int \<times> string) option" where
  "scan_d inp =
     (let s = dropWhile isspace inp;
          (neg, s1) = (case s of
                         ch # r \<Rightarrow> if ch = CHR ''-'' then (True, r)
                                   else if ch = CHR ''+'' then (False, r) else (False, s)
                       | [] \<Rightarrow> (False, s));
          ds = takeWhile isdigit s1
      in if ds = [] then None
         else Some (int_of_long (strtol_value neg (nat_of_digits ds)), dropWhile isdigit s1))"

definition scan_s :: "string \<Rightarrow> (string \<times> string) option" where
  "scan_s inp =
     (let s = dropWhile isspace inp;
          tok = takeWhile (\<lambda>ch. \<not> isspace ch) s
      in if tok = [] then None else Some (tok, dropWhile (\<lambda>ch. \<not> isspace ch) s))"

subsection \<open>The driver and the job handle\<close>

text \<open>
  \<open>lsf_submit_method_enum\<close> is declared in \<^verbatim>\<open>lsf_driver.hpp\<close> (not among the
  sources); \<open>LSF_SUBMIT_INTERNAL\<close> is the library method, which this file never selects.
\<close>

datatype lsf_submit_method_enum =
    LSF_SUBMIT_INVALID
  | LSF_SUBMIT_INTERNAL
  | LSF_SUBMIT_LOCAL_SHELL
  | LSF_SUBMIT_REMOTE_SHELL

text \<open>A \<open>char *\<close> that may be \<open>NULL\<close> is a \<open>string option\<close>.\<close>

record lsf_job =
  lsf_jobnr :: int
  num_exec_host :: int
  exec_host :: "string list"
  lsf_jobnr_char :: "string option"
  job_name :: string

text \<open>
  The two hash tables: \<open>my_jobs\<close> only has keys (every value is \<open>NULL\<close>), the cache maps
  the id string to the backend status code. The two mutexes have no field: taking and
  releasing them are events of the trace below.
\<close>

record lsf_driver =
  queue_name :: "string option"
  resource_request :: "string option"
  exclude_hosts :: "string list"
  login_shell :: "string option"
  project_code :: "string option"
  submit_method :: lsf_submit_method_enum
  submit_sleep :: int
  error_count :: int
  max_error_count :: int
  submit_error_sleep :: int
  debug_output :: bool
  bjobs_refresh_interval :: int
  last_bjobs_update :: int
  my_jobs :: "string set"
  bjobs_cache :: "string \<rightharpoonup> int"
  remote_lsf_server :: "string option"
  rsh_cmd :: string
  bsub_cmd :: string
  bjobs_cmd :: string
  bkill_cmd :: string
  bhist_cmd :: string

definition MAX_ERROR_COUNT :: int where "MAX_ERROR_COUNT = 100"
definition SUBMIT_ERROR_SLEEP :: int where "SUBMIT_ERROR_SLEEP = 2"
definition LSF_JSON :: string where "LSF_JSON = ''lsf_info.json''"

definition lsf_job_alloc :: "string \<Rightarrow> lsf_job" where
  "lsf_job_alloc name =
     \<lparr> lsf_jobnr = 0, num_exec_host = 0, exec_host = [], lsf_jobnr_char = None,
       job_name = name \<rparr>"

subsection \<open>The command builder\<close>

text \<open>\<open>ert::join\<close>: the strings with the separator between neighbours.\<close>

fun ert_join :: "string list \<Rightarrow> string \<Rightarrow> string" where
  "ert_join [] sep = []"
| "ert_join [x] sep = x"
| "ert_join (x # y # ys) sep = x @ sep @ ert_join (y # ys) sep"

text \<open>\<open>strstr\<close>, as the offset of the first occurrence of the needle.\<close>

fun strstr :: "string \<Rightarrow> string \<Rightarrow> nat option" where
  "strstr [] needle = (if needle = [] then Some 0 else None)"
| "strstr (ch # cs) needle =
     (if prefix needle (ch # cs) then Some 0 else map_option Suc (strstr cs needle))"

text \<open>
  \<open>alloc_composed_resource_request\<close>: \<open>pos\<close> and \<open>endpos\<close> are offsets into
  \<open>resreq\<close>; the closing bracket at \<open>endpos\<close> is overwritten by a blank before the
  string is cut there. The only caller passes a driver with a resource request.
\<close>

definition alloc_composed_resource_request :: "lsf_driver \<Rightarrow> string list \<Rightarrow> fatal + string" where
  "alloc_composed_resource_request driver select_list =
     (case resource_request driver of
        None \<Rightarrow> Inl Null_dereference
      | Some resreq \<Rightarrow>
          let excludes_string = ert_join select_list '' && '' in
          (case strstr resreq ''select['' of
             None \<Rightarrow> Inr (resreq @ '' select['' @ excludes_string @ '']'')
           | Some pos \<Rightarrow>
               (case strstr (drop pos resreq) '']'' of
                  None \<Rightarrow> Inl (Util_abort
                    ''alloc_composed_resource_request could not find termination of select statement'')
                | Some off \<Rightarrow>
                    let before_size = pos + off;
                        resreq' = resreq[before_size := CHR '' ''];
                        before = take before_size resreq';
                        after = drop before_size resreq'
                    in Inr (before @ '' && '' @ excludes_string @ '']'' @ after))))"

text \<open>
  \<open>alloc_quoted_resource_string\<close>, in the two halves of its body: first the local
  \<open>req\<close> is computed (\<open>NULL\<close> when there is neither a resource request nor an
  excluded host), then it is copied, between double quotes for the remote shell.
\<close>

definition exclude_host_predicate :: "string \<Rightarrow> string" where
  "exclude_host_predicate host = ''hname!='' @ [CHR 0x27] @ host @ [CHR 0x27]"

definition alloc_quoted_resource_string_req :: "lsf_driver \<Rightarrow> fatal + string option" where
  "alloc_quoted_resource_string_req driver =
     (if length (exclude_hosts driver) = 0 then Inr (resource_request driver)
      else
        let select_list = map exclude_host_predicate (exclude_hosts driver) in
        if resource_request driver \<noteq> None then
          (case alloc_composed_resource_request driver select_list of
             Inl e \<Rightarrow> Inl e
           | Inr req \<Rightarrow> Inr (Some req))
        else Inr (Some (''select['' @ ert_join select_list '' && '' @ '']'')))"

definition alloc_quoted_resource_string :: "lsf_driver \<Rightarrow> fatal + string option" where
  "alloc_quoted_resource_string driver =
     (case alloc_quoted_resource_string_req driver of
        Inl e \<Rightarrow> Inl e
      | Inr None \<Rightarrow> Inr None
      | Inr (Some req) \<Rightarrow>
          if submit_method driver = LSF_SUBMIT_REMOTE_SHELL
          then Inr (Some ([CHR 0x22] @ req @ [CHR 0x22]))
          else Inr (Some req))"

definition lsf_driver_alloc_cmd ::
  "lsf_driver \<Rightarrow> string \<Rightarrow> string \<Rightarrow> string \<Rightarrow> int \<Rightarrow> string list \<Rightarrow> fatal + string list" where
  "lsf_driver_alloc_cmd driver lsf_stdout name submit_cmd num_cpu job_argv =
     (let num_cpu_string = sprintf_d num_cpu in
      case alloc_quoted_resource_string driver of
        Inl e \<Rightarrow> Inl e
      | Inr quoted_resource_request \<Rightarrow>
          Inr ((if submit_method driver = LSF_SUBMIT_REMOTE_SHELL then [bsub_cmd driver] else [])
               @ [''-o'', lsf_stdout]
               @ (case queue_name driver of Some q \<Rightarrow> [''-q'', q] | None \<Rightarrow> [])
               @ [''-J'', name, ''-n'', num_cpu_string]
               @ (case quoted_resource_request of Some r \<Rightarrow> [''-R'', r] | None \<Rightarrow> [])
               @ (case login_shell driver of Some l \<Rightarrow> [''-L'', l] | None \<Rightarrow> [])
               @ (case project_code driver of Some p \<Rightarrow> [''-P'', p] | None \<Rightarrow> [])
               @ [submit_cmd] @ job_argv))"

subsection \<open>The world outside the driver\<close>

text \<open>
  What the driver does to the outside is recorded in program order: taking and
  releasing a mutex, running a command, sleeping, changing one of its two hash tables or
  its error counter, and writing a file.
\<close>

datatype mutex = Submit_lock | Bjobs_mutex

datatype hash_table = My_jobs | Bjobs_cache

datatype event =
    Mutex_lock mutex
  | Mutex_unlock mutex
  | Spawn_blocking string int "string option list"
  | Sleep int
  | Usleep int
  | Hash_clear hash_table
  | Hash_insert hash_table string
  | Error_count_incr
  | Fprintf string string

text \<open>
  The clock counts microseconds; \<open>time(NULL)\<close> reads it in whole seconds. \<open>files\<close>
  holds the files the driver leaves behind; its temporary files are removed before it
  returns and are passed around as their content.
\<close>

record world =
  clock_usec :: int
  files :: "string \<rightharpoonup> string"
  trace :: "event list"

text \<open>
  The process invoker is an external collaborator: at a time, for an executable and its
  argument vector (a \<open>NULL\<close> pointer is \<open>None\<close>), it gives what the command wrote to the
  captured file and how many microseconds it ran.
\<close>

type_synonym invoker = "int \<Rightarrow> string \<Rightarrow> string option list \<Rightarrow> string \<times> nat"

definition log_event :: "event \<Rightarrow> world \<Rightarrow> world" where
  "log_event e w = w\<lparr>trace := trace w @ [e]\<rparr>"

definition time_NULL :: "world \<Rightarrow> int" where
  "time_NULL w = clock_usec w div 1000000"

definition sleep :: "int \<Rightarrow> world \<Rightarrow> world" where
  "sleep seconds w = log_event (Sleep seconds) (w\<lparr>clock_usec := clock_usec w + 1000000 * seconds\<rparr>)"

text \<open>\<open>usleep\<close> takes an unsigned 32-bit number of microseconds.\<close>

definition usleep :: "int \<Rightarrow> world \<Rightarrow> world" where
  "usleep usec w = log_event (Usleep usec) (w\<lparr>clock_usec := clock_usec w + usec mod 2 ^ 32\<rparr>)"

definition spawn_blocking ::
  "invoker \<Rightarrow> string \<Rightarrow> int \<Rightarrow> string option list \<Rightarrow> world \<Rightarrow> string \<times> world" where
  "spawn_blocking run executable argc argv w =
     (let (out, usec) = run (clock_usec w) executable argv
      in (out, log_event (Spawn_blocking executable argc argv)
                 (w\<lparr>clock_usec := clock_usec w + int usec\<rparr>)))"

text \<open>\<open>printf\<close>'s \<open>%s\<close>; glibc prints a null pointer as \<open>(null)\<close>.\<close>

definition sprintf_s :: "string option \<Rightarrow> string" where
  "sprintf_s s = (case s of Some str \<Rightarrow> str | None \<Rightarrow> ''(null)'')"

text \<open>
  The stream routines of libecl's \<open>util\<close>, on the content of a file:
  \<open>util_fskip_lines\<close> moves behind the next \<open>n\<close> newlines, and the lines that repeated
  calls of \<open>util_fscanf_alloc_line\<close> return are the pieces between the newlines (an
  empty last piece matches no format, whether it is returned or not).
\<close>

fun util_fskip_lines :: "nat \<Rightarrow> string \<Rightarrow> string" where
  "util_fskip_lines 0 s = s"
| "util_fskip_lines (Suc n) s =
     util_fskip_lines n (drop 1 (dropWhile (\<lambda>ch. ch \<noteq> CHR 0x0A) s))"

fun util_fscanf_alloc_lines :: "string \<Rightarrow> string list" where
  "util_fscanf_alloc_lines [] = [[]]"
| "util_fscanf_alloc_lines (ch # cs) =
     (if ch = CHR 0x0A then [] # util_fscanf_alloc_lines cs
      else (case util_fscanf_alloc_lines cs of
              l # ls \<Rightarrow> (ch # l) # ls
            | [] \<Rightarrow> [[ch]]))"

subsection \<open>Refreshing the status cache\<close>

text \<open>
  \<open>sscanf(line, "%d %s %s", &job_id_int, user, status)\<close> with \<open>char user[32]\<close> and
  \<open>char status[16]\<close>: all three fields converted (the call returns 3), fewer
  converted, or a token that with its final zero does not fit its buffer, which is
  undefined in C whatever the call would return.
\<close>

datatype sscanf_result = Sscanf_3 int string string | Sscanf_less | Sscanf_overflow

definition sscanf_d_s_s :: "string \<Rightarrow> sscanf_result" where
  "sscanf_d_s_s line =
     (case scan_d line of
        None \<Rightarrow> Sscanf_less
      | Some (job_id_int, r1) \<Rightarrow>
          (case scan_s r1 of
             None \<Rightarrow> Sscanf_less
           | Some (user, r2) \<Rightarrow>
               if length user \<ge> 32 then Sscanf_overflow
               else
                 (case scan_s r2 of
                    None \<Rightarrow> Sscanf_less
                  | Some (status, r3) \<Rightarrow>
                      if length status \<ge> 16 then Sscanf_overflow
                      else Sscanf_3 job_id_int user status)))"

text \<open>
  The body of the \<open>while (!at_eof)\<close> loop, over the lines left in the stream. The
  \<open>else\<close> with \<open>util_exit\<close> belongs to the inner \<open>if\<close>: it is reached for a job of
  this instance whose status token is not in \<open>status_map\<close>.
\<close>

fun update_bjobs_table_loop ::
  "job_stat \<Rightarrow> string list \<Rightarrow> lsf_driver \<Rightarrow> world \<Rightarrow> (fatal + lsf_driver) \<times> world" where
  "update_bjobs_table_loop c [] driver w = (Inr driver, w)"
| "update_bjobs_table_loop c (line # rest) driver w =
     (case sscanf_d_s_s line of
        Sscanf_overflow \<Rightarrow> (Inl Buffer_overflow, w)
      | Sscanf_less \<Rightarrow> update_bjobs_table_loop c rest driver w
      | Sscanf_3 job_id_int user status \<Rightarrow>
          let job_id = sprintf_d job_id_int in
          if job_id \<in> my_jobs driver then
            (case status_map c status of
               Some found_status \<Rightarrow>
                 update_bjobs_table_loop c rest
                   (driver\<lparr>bjobs_cache := (bjobs_cache driver)(job_id \<mapsto> found_status)\<rparr>)
                   (log_event (Hash_insert Bjobs_cache job_id) w)
             | None \<Rightarrow> (Inl (Util_exit (''The lsf_status:'' @ status @ ''  for job:'' @ job_id
                              @ '' is not recognized; call your LSF administrator - sorry :-( '')), w))
          else update_bjobs_table_loop c rest driver w)"

text \<open>
  \<open>lsf_driver_update_bjobs_table\<close>, in the two blocks of its body: the listing command
  is run into the temporary file (no command for a method that is neither shell method),
  then the cache is cleared and rebuilt from the lines behind the header line.
\<close>

definition update_bjobs_table_spawn :: "invoker \<Rightarrow> lsf_driver \<Rightarrow> world \<Rightarrow> string \<times> world" where
  "update_bjobs_table_spawn run driver w =
     (if submit_method driver = LSF_SUBMIT_REMOTE_SHELL then
        spawn_blocking run (rsh_cmd driver) 2
          [remote_lsf_server driver, Some (bjobs_cmd driver @ '' -a'')] w
      else if submit_method driver = LSF_SUBMIT_LOCAL_SHELL then
        spawn_blocking run (bjobs_cmd driver) 1 [Some ''-a''] w
      else ([], w))"

definition lsf_driver_update_bjobs_table ::
  "job_stat \<Rightarrow> invoker \<Rightarrow> lsf_driver \<Rightarrow> world \<Rightarrow> (fatal + lsf_driver) \<times> world" where
  "lsf_driver_update_bjobs_table c run driver w =
     (let (tmp_file, w1) = update_bjobs_table_spawn run driver w;
          driver1 = driver\<lparr>bjobs_cache := Map.empty\<rparr>;
          w2 = log_event (Hash_clear Bjobs_cache) w1
      in update_bjobs_table_loop c (util_fscanf_alloc_lines (util_fskip_lines 1 tmp_file)) driver1 w2)"

text \<open>
  What a listing reports, for the statements about the refresh: the job id (as the key
  the loop builds from the number scanned) and the status token of every line behind the
  header that has the three fields; and whether a line of the listing has a token too
  long for its buffer.
\<close>

definition bjobs_line_entry :: "string \<Rightarrow> (string \<times> string) option" where
  "bjobs_line_entry line =
     (case sscanf_d_s_s line of
        Sscanf_3 job_id_int user status \<Rightarrow> Some (sprintf_d job_id_int, status)
      | Sscanf_less \<Rightarrow> None
      | Sscanf_overflow \<Rightarrow> None)"

definition overflow_listed :: "string list \<Rightarrow> bool" where
  "overflow_listed ls = list_ex (\<lambda>line. sscanf_d_s_s line = Sscanf_overflow) ls"




subsection \<open>The history probe\<close>

text \<open>
  \<open>fscanf(stream, "%s %s %s %d %d %d", job_id, user, job_name, pend_time,
  &psusp_time, run_time) != 6\<close>: the two counters when all six fields convert. (The
  three names go into buffers of 16, 32 and 32 bytes; a longer one is undefined in the
  source, and the model scans on.)
\<close>

definition fscanf_s_s_s_d_d_d :: "string \<Rightarrow> (int \<times> int) option" where
  "fscanf_s_s_s_d_d_d stream =
     (case scan_s stream of None \<Rightarrow> None | Some (job_id, r1) \<Rightarrow>
     (case scan_s r1 of None \<Rightarrow> None | Some (user, r2) \<Rightarrow>
     (case scan_s r2 of None \<Rightarrow> None | Some (name, r3) \<Rightarrow>
     (case scan_d r3 of None \<Rightarrow> None | Some (pend_time, r4) \<Rightarrow>
     (case scan_d r4 of None \<Rightarrow> None | Some (psusp_time, r5) \<Rightarrow>
     (case scan_d r5 of None \<Rightarrow> None | Some (run_time, r6) \<Rightarrow>
        Some (pend_time, run_time)))))))"

text \<open>
  \<open>lsf_driver_run_bhist\<close> returns \<open>bhist_ok\<close> and, through its two pointers, the
  counters: \<open>Some (pend_time, run_time)\<close> stands for \<open>true\<close>, \<open>None\<close> for \<open>false\<close>. In
  the local branch the executable is \<open>bjobs_cmd\<close> and the argument count is 2 for a
  vector of one pointer, as written in the source.
\<close>

definition lsf_driver_run_bhist ::
  "invoker \<Rightarrow> lsf_driver \<Rightarrow> lsf_job \<Rightarrow> world \<Rightarrow> (int \<times> int) option \<times> world" where
  "lsf_driver_run_bhist run driver job w =
     (let (output_file, w1) =
            (if submit_method driver = LSF_SUBMIT_REMOTE_SHELL then
               spawn_blocking run (rsh_cmd driver) 2
                 [remote_lsf_server driver,
                  Some (bhist_cmd driver @ '' '' @ sprintf_s (lsf_jobnr_char job))] w
             else if submit_method driver = LSF_SUBMIT_LOCAL_SHELL then
               spawn_blocking run (bjobs_cmd driver) 2 [lsf_jobnr_char job] w
             else ([], w))
      in (fscanf_s_s_s_d_d_d (util_fskip_lines 2 output_file), w1))"

definition lsf_driver_get_bhist_status_shell ::
  "job_stat \<Rightarrow> invoker \<Rightarrow> lsf_driver \<Rightarrow> lsf_job \<Rightarrow> world \<Rightarrow> int \<times> world" where
  "lsf_driver_get_bhist_status_shell c run driver job w =
     (let status = JOB_STAT_UNKWN c;
          sleep_time = 4
      in case lsf_driver_run_bhist run driver job w of
           (None, w1) \<Rightarrow> (status, w1)
         | (Some (pend_time1, run_time1), w1) \<Rightarrow>
             (case lsf_driver_run_bhist run driver job (sleep sleep_time w1) of
                (None, w2) \<Rightarrow> (status, w2)
              | (Some (pend_time2, run_time2), w2) \<Rightarrow>
                  let status1 = (if run_time1 = run_time2 \<and> pend_time1 = pend_time2
                                 then JOB_STAT_DONE c else status);
                      status2 = (if pend_time2 > pend_time1 then JOB_STAT_PEND c else status1);
                      status3 = (if run_time2 > run_time1 then JOB_STAT_RUN c else status2)
                  in (status3, w2)))"

subsection \<open>Status lookup\<close>

text \<open>
  \<open>hash_has_key\<close> on the cache; the key of a handle is a \<open>char *\<close>, and hashing a null
  pointer ends the process (\<open>None\<close>).
\<close>

definition hash_has_key :: "(string \<rightharpoonup> int) \<Rightarrow> string option \<Rightarrow> bool option" where
  "hash_has_key table key = (case key of None \<Rightarrow> None | Some k \<Rightarrow> Some (k \<in> dom table))"

text \<open>
  The refresh predicate \<open>update_cache\<close>: \<open>difftime\<close> of two \<open>time_t\<close> is their
  difference in seconds, and \<open>||\<close> evaluates the key test only when the interval has not
  passed.
\<close>

definition update_cache :: "lsf_driver \<Rightarrow> lsf_job \<Rightarrow> world \<Rightarrow> bool option" where
  "update_cache driver job w =
     (if time_NULL w - last_bjobs_update driver > bjobs_refresh_interval driver then Some True
      else map_option Not (hash_has_key (bjobs_cache driver) (lsf_jobnr_char job)))"

text \<open>
  \<open>lsf_driver_get_job_status_shell\<close> returns the backend status code; the driver it
  may have changed is returned with it. A null handle is \<open>None\<close>.
\<close>

definition lsf_driver_get_job_status_shell ::
  "job_stat \<Rightarrow> invoker \<Rightarrow> lsf_driver \<Rightarrow> lsf_job option \<Rightarrow> world
     \<Rightarrow> (fatal + int \<times> lsf_driver) \<times> world" where
  "lsf_driver_get_job_status_shell c run driver job_ptr w =
     (case job_ptr of
        None \<Rightarrow> (Inr (JOB_STAT_NULL c, driver), w)
      | Some job \<Rightarrow>
          let w1 = log_event (Mutex_lock Bjobs_mutex) w in
          (case update_cache driver job w1 of
             None \<Rightarrow> (Inl Null_dereference, w1)
           | Some do_update \<Rightarrow>
               (case (if do_update then
                        (case lsf_driver_update_bjobs_table c run driver w1 of
                           (Inl e, w2) \<Rightarrow> (Inl e, w2)
                         | (Inr driver1, w2) \<Rightarrow>
                             (Inr (driver1\<lparr>last_bjobs_update := time_NULL w2\<rparr>), w2))
                      else (Inr driver, w1)) of
                  (Inl e, w2) \<Rightarrow> (Inl e, w2)
                | (Inr driver2, w2) \<Rightarrow>
                    let w3 = log_event (Mutex_unlock Bjobs_mutex) w2 in
                    (case lsf_jobnr_char job of
                       None \<Rightarrow> (Inl Null_dereference, w3)
                     | Some key \<Rightarrow>
                         (case bjobs_cache driver2 key of
                            Some status \<Rightarrow> (Inr (status, driver2), w3)
                          | None \<Rightarrow>
                              let driver3 = driver2\<lparr>debug_output := True\<rparr>;
                                  (status, w4) =
                                    lsf_driver_get_bhist_status_shell c run driver3 job w3
                              in (Inr (status,
                                       driver3\<lparr>bjobs_cache := (bjobs_cache driver3)(key \<mapsto> status)\<rparr>),
                                  log_event (Hash_insert Bjobs_cache key) w4))))))"

definition lsf_driver_get_job_status_lsf ::
  "job_stat \<Rightarrow> invoker \<Rightarrow> lsf_driver \<Rightarrow> lsf_job option \<Rightarrow> world
     \<Rightarrow> (fatal + int \<times> lsf_driver) \<times> world" where
  "lsf_driver_get_job_status_lsf c run driver job_ptr w =
     lsf_driver_get_job_status_shell c run driver job_ptr w"

definition lsf_driver_get_job_status ::
  "job_stat \<Rightarrow> invoker \<Rightarrow> lsf_driver \<Rightarrow> lsf_job option \<Rightarrow> world
     \<Rightarrow> (fatal + job_status_type \<times> lsf_driver) \<times> world" where
  "lsf_driver_get_job_status c run driver job_ptr w =
     (case lsf_driver_get_job_status_lsf c run driver job_ptr w of
        (Inl e, w1) \<Rightarrow> (Inl e, w1)
      | (Inr (lsf_status, driver1), w1) \<Rightarrow>
          (case lsf_driver_convert_status c lsf_status of
             Inl e \<Rightarrow> (Inl e, w1)
           | Inr job_status \<Rightarrow> (Inr (job_status, driver1), w1)))"

subsection \<open>Submission\<close>

text \<open>
  libecl's \<open>util_sscanf_int\<close>: \<open>strtol\<close> in base 10, accepted when only white space
  follows the number (\<open>strtol\<close> gives 0 and consumes nothing when there is no number).
  \<open>util_alloc_filename\<close> joins path, name and extension.
\<close>

definition util_sscanf_int :: "string \<Rightarrow> int option" where
  "util_sscanf_int buffer =
     (case scan_d buffer of
        Some (tmp_value, error_ptr) \<Rightarrow> if list_all isspace error_ptr then Some tmp_value else None
      | None \<Rightarrow> if list_all isspace buffer then Some 0 else None)"

definition util_alloc_filename :: "string option \<Rightarrow> string \<Rightarrow> string option \<Rightarrow> string" where
  "util_alloc_filename path name extension =
     (case path of None \<Rightarrow> [] | Some p \<Rightarrow> p @ ''/'') @ name
     @ (case extension of None \<Rightarrow> [] | Some e \<Rightarrow> ''.'' @ e)"

text \<open>
  \<open>lsf_job_parse_bsub_stdout\<close> on the content of the file the submit command wrote (the
  temporary file exists, so the test is that it is not empty): the text between the
  first \<open><\<close> and the next \<open>>\<close> is read as the job id.
\<close>

definition lsf_job_parse_bsub_stdout :: "string \<Rightarrow> string \<Rightarrow> fatal + int" where
  "lsf_job_parse_bsub_stdout bsub stdout_file =
     (if stdout_file \<noteq> [] then
        let jobid =
              (case strstr stdout_file ''<'' of
                 None \<Rightarrow> 0
               | Some p \<Rightarrow>
                   let stream = drop (Suc p) stdout_file in
                   (case strstr stream ''>'' of
                      None \<Rightarrow> 0
                    | Some q \<Rightarrow>
                        (case util_sscanf_int (take q stream) of
                           Some v \<Rightarrow> v
                         | None \<Rightarrow> 0)))
        in if jobid = 0 then Inl (Util_abort ''lsf_job_parse_bsub_stdout: '') else Inr jobid
      else Inr 0)"

definition lsf_driver_submit_shell_job ::
  "invoker \<Rightarrow> lsf_driver \<Rightarrow> string \<Rightarrow> string \<Rightarrow> string \<Rightarrow> int \<Rightarrow> string list \<Rightarrow> world
     \<Rightarrow> (fatal + int) \<times> world" where
  "lsf_driver_submit_shell_job run driver lsf_stdout name submit_cmd num_cpu job_argv w =
     (case lsf_driver_alloc_cmd driver lsf_stdout name submit_cmd num_cpu job_argv of
        Inl e \<Rightarrow> (Inl e, w)
      | Inr remote_argv \<Rightarrow>
          let (tmp_file, w1) =
                (if submit_method driver = LSF_SUBMIT_REMOTE_SHELL then
                   spawn_blocking run (rsh_cmd driver) 2
                     [remote_lsf_server driver, Some (ert_join remote_argv '' '')] w
                 else if submit_method driver = LSF_SUBMIT_LOCAL_SHELL then
                   spawn_blocking run (bsub_cmd driver) (int (length remote_argv))
                     (map Some remote_argv) w
                 else ([], w))
          in (lsf_job_parse_bsub_stdout (bsub_cmd driver) tmp_file, w1))"

text \<open>The text \<open>fprintf(stream, "{\"job_id\" : %ld}\n", job->lsf_jobnr)\<close> writes.\<close>

definition lsf_json_text :: "int \<Rightarrow> string" where
  "lsf_json_text jobnr =
     ''{'' @ [CHR 0x22] @ ''job_id'' @ [CHR 0x22] @ '' : '' @ sprintf_d jobnr @ ''}'' @ [CHR 0x0A]"

text \<open>
  \<open>lsf_driver_submit_job\<close> returns the job handle or \<open>NULL\<close> (\<open>None\<close>), with the driver
  as it has left it.
\<close>

definition lsf_driver_submit_job ::
  "invoker \<Rightarrow> lsf_driver \<Rightarrow> string \<Rightarrow> int \<Rightarrow> string \<Rightarrow> string \<Rightarrow> string list \<Rightarrow> world
     \<Rightarrow> (fatal + lsf_job option \<times> lsf_driver) \<times> world" where
  "lsf_driver_submit_job run driver submit_cmd num_cpu run_path name job_argv w =
     (if submit_method driver = LSF_SUBMIT_INVALID then (Inl (Exit 1), w)
      else
        let job = lsf_job_alloc name;
            w1 = usleep (submit_sleep driver) w;
            lsf_stdout = util_alloc_filename (Some run_path) name (Some ''LSF-stdout'');
            w2 = log_event (Mutex_lock Submit_lock) w1
        in case lsf_driver_submit_shell_job run driver lsf_stdout name submit_cmd num_cpu job_argv w2 of
             (Inl e, w3) \<Rightarrow> (Inl e, w3)
           | (Inr jobnr, w3) \<Rightarrow>
               let job1 = job\<lparr>lsf_jobnr := jobnr, lsf_jobnr_char := Some (sprintf_d jobnr)\<rparr>;
                   driver1 = driver\<lparr>my_jobs := insert (sprintf_d jobnr) (my_jobs driver)\<rparr>;
                   w4 = log_event (Mutex_unlock Submit_lock)
                          (log_event (Hash_insert My_jobs (sprintf_d jobnr)) w3)
               in if lsf_jobnr job1 > 0 then
                    let json_file = util_alloc_filename (Some run_path) LSF_JSON None;
                        w5 = log_event (Fprintf json_file (lsf_json_text (lsf_jobnr job1)))
                               (w4\<lparr>files := (files w4)(json_file \<mapsto> lsf_json_text (lsf_jobnr job1))\<rparr>)
                    in (Inr (Some job1, driver1), w5)
                  else
                    let driver2 = driver1\<lparr>error_count := error_count driver1 + 1\<rparr>;
                        w5 = log_event Error_count_incr w4
                    in if error_count driver2 \<ge> max_error_count driver2 then
                         (Inl (Util_exit ''Maximum number of submit errors exceeded - giving up''), w5)
                       else
                         let driver3 = driver2\<lparr>debug_output := True\<rparr>;
                             w6 = usleep (submit_error_sleep driver3) w5
                         in (Inr (None, driver3), w6))"

text \<open>
  \<open>lsf_driver_alloc\<close>: the fields as the assignments and the \<open>lsf_driver_set_option\<close>
  calls leave them (a \<open>NULL\<close> server keeps the local shell method). The option keys and
  \<open>DEFAULT_SUBMIT_SLEEP\<close> are macros of the header; the sleep is a parameter, in
  microseconds.
\<close>

definition lsf_driver_alloc :: "int \<Rightarrow> world \<Rightarrow> lsf_driver" where
  "lsf_driver_alloc default_submit_sleep w =
     \<lparr> queue_name = None, resource_request = None, exclude_hosts = [], login_shell = None,
       project_code = None, submit_method = LSF_SUBMIT_LOCAL_SHELL,
       submit_sleep = default_submit_sleep, error_count = 0,
       max_error_count = MAX_ERROR_COUNT, submit_error_sleep = SUBMIT_ERROR_SLEEP * 1000000,
       debug_output = False, bjobs_refresh_interval = 10, last_bjobs_update = time_NULL w,
       my_jobs = {}, bjobs_cache = Map.empty, remote_lsf_server = None,
       rsh_cmd = ''ssh'', bsub_cmd = ''bsub'', bjobs_cmd = ''bjobs'', bkill_cmd = ''bkill'',
       bhist_cmd = ''bhist'' \<rparr>"

subsection \<open>Critical sections and repeated submission\<close>

text \<open>
  \<open>event_under_lock m ev held tr\<close>: every occurrence of the event \<open>ev\<close> in the trace
  \<open>tr\<close> happens while the mutex \<open>m\<close> is held (\<open>held\<close> says whether it is at the
  start).
\<close>

fun event_under_lock :: "mutex \<Rightarrow> event \<Rightarrow> bool \<Rightarrow> event list \<Rightarrow> bool" where
  "event_under_lock m ev held [] = True"
| "event_under_lock m ev held (e # es) =
     ((if e = ev then held else True) \<and>
      event_under_lock m ev
        (if e = Mutex_lock m then True else if e = Mutex_unlock m then False else held) es)"

text \<open>
  The receipt as the specification words it, \<open>{"job_id": <integer>}\<close>, and JSON text
  without its insignificant white space (blank, tab, line feed and carriage return
  outside of strings; a backslash in a string keeps the character after it), to compare
  the text the driver writes with it.
\<close>

definition spec_receipt_json :: "int \<Rightarrow> string" where
  "spec_receipt_json job_id =
     ''{'' @ [CHR 0x22] @ ''job_id'' @ [CHR 0x22] @ '': '' @ sprintf_d job_id @ ''}''"

fun json_strip_ws :: "bool \<Rightarrow> string \<Rightarrow> string" where
  "json_strip_ws in_string [] = []"
| "json_strip_ws in_string (ch # cs) =
     (if in_string then
        (if ch = CHR 0x5C then
           (case cs of [] \<Rightarrow> [ch] | esc # cs' \<Rightarrow> ch # esc # json_strip_ws True cs')
         else ch # json_strip_ws (ch \<noteq> CHR 0x22) cs)
      else if ch \<in> set [CHR '' '', CHR 0x09, CHR 0x0A, CHR 0x0D] then json_strip_ws False cs
      else ch # json_strip_ws (ch = CHR 0x22) cs)"

text \<open>
  \<open>n\<close> submissions of the same job one after the other, each on the driver the one
  before has left; the first that ends the process ends the run.
\<close>

fun submit_repeatedly ::
  "nat \<Rightarrow> invoker \<Rightarrow> lsf_driver \<Rightarrow> string \<Rightarrow> int \<Rightarrow> string \<Rightarrow> string \<Rightarrow> string list \<Rightarrow> world
     \<Rightarrow> (fatal + lsf_driver) \<times> world" where
  "submit_repeatedly 0 run driver submit_cmd num_cpu run_path name job_argv w = (Inr driver, w)"
| "submit_repeatedly (Suc n) run driver submit_cmd num_cpu run_path name job_argv w =
     (case lsf_driver_submit_job run driver submit_cmd num_cpu run_path name job_argv w of
        (Inl e, w1) \<Rightarrow> (Inl e, w1)
      | (Inr (job, driver1), w1) \<Rightarrow>
          submit_repeatedly n run driver1 submit_cmd num_cpu run_path name job_argv w1)"

subsection \<open>Concrete inputs\<close>

text \<open>A fresh driver (local shell method), the same driver set up for a remote server,
  a submitted job, and command outputs of the three external commands.\<close>

definition world0 :: world where
  "world0 = \<lparr> clock_usec = 0, files = Map.empty, trace = [] \<rparr>"

definition job42 :: lsf_job where
  "job42 = (lsf_job_alloc ''job42'')\<lparr>lsf_jobnr := 42, lsf_jobnr_char := Some ''42''\<rparr>"

definition local_driver :: lsf_driver where
  "local_driver = lsf_driver_alloc 0 world0"

definition remote_driver :: lsf_driver where
  "remote_driver = local_driver\<lparr>submit_method := LSF_SUBMIT_REMOTE_SHELL,
     remote_lsf_server := Some ''lsf-server''\<rparr>"

definition bhist_text :: "int \<Rightarrow> int \<Rightarrow> string" where
  "bhist_text pend_time run_time =
     ''Summary of time in seconds spent in various states:'' @ [CHR 0x0A]
     @ ''JOBID USER JOB_NAME PEND PSUSP RUN USUSP SSUSP UNKWN TOTAL'' @ [CHR 0x0A]
     @ ''42 alice job42 '' @ sprintf_d pend_time @ '' 0 '' @ sprintf_d run_time @ '' 0 0 0 15''
     @ [CHR 0x0A]"

definition progress_invoker :: invoker where
  "progress_invoker t executable argv =
     (if t < 1000000 then (bhist_text 5 10, 0) else (bhist_text 8 14, 0))"

definition bjobs_text :: string where
  "bjobs_text =
     ''JOBID USER STAT QUEUE'' @ [CHR 0x0A]
     @ ''42 alice RUN normal'' @ [CHR 0x0A]
     @ ''41 bob PEND normal'' @ [CHR 0x0A]"



definition listing_invoker :: invoker where
  "listing_invoker t executable argv = (bjobs_text, 0)"

definition tracking_driver :: lsf_driver where
  "tracking_driver = local_driver\<lparr>my_jobs := {''42'', ''43''}, bjobs_cache := [''43'' \<mapsto> 4]\<rparr>"

definition cached_driver :: lsf_driver where
  "cached_driver = tracking_driver\<lparr>bjobs_cache := [''42'' \<mapsto> 4]\<rparr>"

definition bsub_text :: string where
  "bsub_text = ''Job <42> is submitted to default queue <normal>.'' @ [CHR 0x0A]"

definition submit_invoker :: invoker where
  "submit_invoker t executable argv = (bsub_text, 0)"

definition failing_invoker :: invoker where
  "failing_invoker t executable argv = ([], 0)"

definition exclusion_driver :: lsf_driver where
  "exclusion_driver = remote_driver\<lparr>
     resource_request := Some ''span[hosts=1] select[mem>100] rusage[mem=50]'',
     exclude_hosts := [''n1'', ''n2'']\<rparr>"

definition plain_driver :: lsf_driver where
  "plain_driver = local_driver\<lparr>
     resource_request := Some ''span[hosts=1]'', exclude_hosts := [''n1'', ''n2'']\<rparr>"

section \<open>Properties\<close>

subsection \<open>Evaluation of the scanners on concrete text\<close>

lemma util_fskip_lines_1:
  "util_fskip_lines 1 s = drop 1 (dropWhile (\<lambda>ch. ch \<noteq> CHR 0x0A) s)"
  using util_fskip_lines.simps(2) [of 0 s] by simp

lemma util_fskip_lines_2:
  "util_fskip_lines 2 s =
     drop 1 (dropWhile (\<lambda>ch. ch \<noteq> CHR 0x0A) (drop 1 (dropWhile (\<lambda>ch. ch \<noteq> CHR 0x0A) s)))"
  by (simp add: numeral_2_eq_2)

lemma string_of_nat_numeral:
  "string_of_nat (numeral k) =
     (if numeral k < (10::nat) then [digit_char (numeral k)]
      else string_of_nat (numeral k div 10) @ [digit_char (numeral k mod 10)])"
  by (rule string_of_nat.simps)

lemma string_of_nat_0: "string_of_nat 0 = ''0''"
  by (simp add: string_of_nat.simps digit_char_def)

lemma string_of_nat_1: "string_of_nat (Suc 0) = ''1''"
  by (simp add: string_of_nat.simps digit_char_def)

lemmas scan_defs = Let_def util_fskip_lines_1 util_fskip_lines_2 scan_d_def scan_s_def
  strtol_value_def int_of_long_def
  isspace_def isdigit_def nat_of_digits_def digit_val_def fscanf_s_s_s_d_d_d_def
  sscanf_d_s_s_def sprintf_d_def string_of_nat_numeral string_of_nat_0 string_of_nat_1
  digit_char_def

lemmas world_defs = spawn_blocking_def log_event_def sleep_def usleep_def time_NULL_def
  world0_def

lemmas driver_defs = local_driver_def remote_driver_def lsf_driver_alloc_def job42_def
  lsf_job_alloc_def MAX_ERROR_COUNT_def SUBMIT_ERROR_SLEEP_def

subsection \<open>The history probe\<close>

lemma progress_first_sample:
  "lsf_driver_run_bhist progress_invoker local_driver job42 world0 =
     (Some (5, 10),
      \<lparr>clock_usec = 0, files = Map.empty, trace = [Spawn_blocking ''bjobs'' 2 [Some ''42'']]\<rparr>)"
  by (simp add: lsf_driver_run_bhist_def progress_invoker_def bhist_text_def driver_defs
      scan_defs world_defs)

lemma progress_second_sample:
  "fst (lsf_driver_run_bhist progress_invoker local_driver job42
         (sleep 4 (snd (lsf_driver_run_bhist progress_invoker local_driver job42 world0))))
     = Some (8, 14)"
  by (simp add: progress_first_sample)
     (simp add: lsf_driver_run_bhist_def progress_invoker_def bhist_text_def driver_defs
       scan_defs world_defs)

text \<open>
  \<^bold>\<open>C1.\<close> The inference of the history probe from its two samples, in the priority
  order of the code: when either sample does not parse the result is UNKNOWN; otherwise
  an increased running counter gives RUNNING (also when the pending counter increased
  too, because the running test comes last and overrides), else an increased pending
  counter gives PENDING, else two unchanged counters give DONE, and anything else stays
  UNKNOWN.
\<close>

theorem bhist_status_inference:
  assumes "lsf_driver_run_bhist run driver job w = (sample1, w1)"
    and "lsf_driver_run_bhist run driver job (sleep 4 w1) = (sample2, w2)"
  shows "fst (lsf_driver_get_bhist_status_shell c run driver job w) =
    (case (sample1, sample2) of
       (Some (pend_time1, run_time1), Some (pend_time2, run_time2)) \<Rightarrow>
         if run_time2 > run_time1 then JOB_STAT_RUN c
         else if pend_time2 > pend_time1 then JOB_STAT_PEND c
         else if run_time1 = run_time2 \<and> pend_time1 = pend_time2 then JOB_STAT_DONE c
         else JOB_STAT_UNKWN c
     | _ \<Rightarrow> JOB_STAT_UNKWN c)"
  using assms
  by (auto simp: lsf_driver_get_bhist_status_shell_def split: option.splits prod.splits)

theorem bhist_status_inference_witness:
  "fst (lsf_driver_run_bhist progress_invoker local_driver job42 world0) = Some (5, 10)
   \<and> fst (lsf_driver_run_bhist progress_invoker local_driver job42
            (sleep 4 (snd (lsf_driver_run_bhist progress_invoker local_driver job42 world0))))
       = Some (8, 14)
   \<and> fst (lsf_driver_get_bhist_status_shell lsb_job_stat progress_invoker local_driver job42 world0)
       = JOB_STAT_RUN lsb_job_stat"
  using bhist_status_inference [OF surjective_pairing surjective_pairing,
      where run = progress_invoker and driver = local_driver and job = job42 and w = world0
        and c = lsb_job_stat]
  by (simp add: progress_second_sample) (simp add: progress_first_sample)

text \<open>
  \<^bold>\<open>C9.\<close> The command the history probe runs for a sample. With the local shell
  method the executable is the listing command \<open>bjobs_cmd\<close>, called with the job id
  and an argument count of 2; the history command \<open>bhist_cmd\<close> is not used. (With the
  remote shell method the command line is \<open>bhist_cmd\<close> followed by the job id, as the
  lemma after the witness shows.)
\<close>

theorem run_bhist_local_shell_command:
  assumes "submit_method driver = LSF_SUBMIT_LOCAL_SHELL"
  shows "trace (snd (lsf_driver_run_bhist run driver job w))
           = trace w @ [Spawn_blocking (bjobs_cmd driver) 2 [lsf_jobnr_char job]]"
  using assms
  by (simp add: lsf_driver_run_bhist_def spawn_blocking_def log_event_def split: prod.splits)

theorem run_bhist_local_shell_command_witness:
  "submit_method local_driver = LSF_SUBMIT_LOCAL_SHELL
   \<and> bhist_cmd local_driver = ''bhist''
   \<and> trace (snd (lsf_driver_run_bhist progress_invoker local_driver job42 world0))
       = [Spawn_blocking ''bjobs'' 2 [Some ''42'']]"
proof -
  have h: "submit_method local_driver = LSF_SUBMIT_LOCAL_SHELL"
    by (simp add: driver_defs)
  show ?thesis
    using h run_bhist_local_shell_command [OF h, of progress_invoker job42 world0]
    by (simp add: driver_defs world0_def)
qed

lemma run_bhist_remote_shell_command:
  assumes "submit_method driver = LSF_SUBMIT_REMOTE_SHELL"
  shows "trace (snd (lsf_driver_run_bhist run driver job w))
           = trace w @ [Spawn_blocking (rsh_cmd driver) 2
                          [remote_lsf_server driver,
                           Some (bhist_cmd driver @ '' '' @ sprintf_s (lsf_jobnr_char job))]]"
  using assms
  by (simp add: lsf_driver_run_bhist_def spawn_blocking_def log_event_def split: prod.splits)

subsection \<open>Status conversion\<close>

text \<open>
  \<^bold>\<open>C2.\<close> The refresher's token table maps the token \<open>PDONE\<close> to \<open>JOB_STAT_PDONE\<close>,
  and the conversion table has no entry for that code (only for the sum
  \<open>JOB_STAT_DONE + JOB_STAT_PDONE\<close>): whenever \<open>JOB_STAT_PDONE\<close> differs from the keys
  of the conversion table, as it does for the values of LSF, converting the code the
  refresher stored ends in the runtime error.
\<close>

theorem pdone_status_unconverted:
  assumes "JOB_STAT_PDONE c \<notin> fst ` set (convert_status_map_entries c)"
  shows "status_map c ''PDONE'' = Some (JOB_STAT_PDONE c)
         \<and> lsf_driver_convert_status c (JOB_STAT_PDONE c)
             = Inl (Runtime_error ''lsf_driver_convert_status: unrecognized lsf status code'')"
proof -
  have "map_of (convert_status_map_entries c) (JOB_STAT_PDONE c) = None"
    using assms by (simp only: map_of_eq_None_iff not_False_eq_True)
  then show ?thesis
    by (simp add: status_map_def status_map_entries_def lsf_driver_convert_status_def
        convert_status_map_def)
qed

theorem pdone_status_unconverted_witness:
  "JOB_STAT_PDONE lsb_job_stat \<notin> fst ` set (convert_status_map_entries lsb_job_stat)
   \<and> status_map lsb_job_stat ''PDONE'' = Some 128
   \<and> lsf_driver_convert_status lsb_job_stat 128
       = Inl (Runtime_error ''lsf_driver_convert_status: unrecognized lsf status code'')"
proof -
  have h: "JOB_STAT_PDONE lsb_job_stat \<notin> fst ` set (convert_status_map_entries lsb_job_stat)"
    by (simp add: lsb_job_stat_def convert_status_map_entries_def)
  have v: "JOB_STAT_PDONE lsb_job_stat = 128" by (simp add: lsb_job_stat_def)
  show ?thesis using h pdone_status_unconverted [OF h] by (simp add: v)
qed

text \<open>
  The rest of the conversion: a code that is a key of the conversion table is converted,
  any other code ends in the runtime error; the codes of all other status tokens, and
  the codes the history probe returns, are keys of the table.
\<close>

lemma convert_status_mapped_or_fatal:
  "(lsf_status \<in> fst ` set (convert_status_map_entries c)
      \<longrightarrow> (\<exists>job_status. lsf_driver_convert_status c lsf_status = Inr job_status))
   \<and> (lsf_status \<notin> fst ` set (convert_status_map_entries c)
      \<longrightarrow> lsf_driver_convert_status c lsf_status
            = Inl (Runtime_error ''lsf_driver_convert_status: unrecognized lsf status code''))"
proof (cases "map_of (convert_status_map_entries c) lsf_status")
  case None
  then have "lsf_status \<notin> fst ` set (convert_status_map_entries c)"
    by (metis map_of_eq_None_iff)
  then show ?thesis
    using None by (simp add: lsf_driver_convert_status_def convert_status_map_def)
next
  case (Some job_status)
  then have "lsf_status \<in> fst ` set (convert_status_map_entries c)"
    by (metis map_of_eq_None_iff option.distinct(1))
  then show ?thesis
    using Some by (simp add: lsf_driver_convert_status_def convert_status_map_def)
qed

lemma other_tokens_converted:
  assumes "(token, code) \<in> set (status_map_entries c)" and "token \<noteq> ''PDONE''"
  shows "code \<in> fst ` set (convert_status_map_entries c)"
  using assms by (auto simp: status_map_entries_def convert_status_map_entries_def)

lemma bhist_codes_converted:
  "fst (lsf_driver_get_bhist_status_shell c run driver job w)
     \<in> fst ` set (convert_status_map_entries c)"
proof -
  have "fst (lsf_driver_get_bhist_status_shell c run driver job w)
          \<in> {JOB_STAT_UNKWN c, JOB_STAT_DONE c, JOB_STAT_PEND c, JOB_STAT_RUN c}"
    by (auto simp: lsf_driver_get_bhist_status_shell_def Let_def split: prod.splits option.splits)
  then show ?thesis by (auto simp: convert_status_map_entries_def)
qed

text \<open>
  \<^bold>\<open>C10.\<close> A status lookup with a null job handle returns the null backend code and
  leaves the driver and the world as they were (no event, no command, no change of the
  clock); the null code converts to \<open>NOT_ACTIVE\<close>, for any value of the constants.
\<close>

theorem null_job_status_not_active:
  "lsf_driver_get_job_status_shell c run driver None w = (Inr (JOB_STAT_NULL c, driver), w)
   \<and> lsf_driver_convert_status c (JOB_STAT_NULL c) = Inr JOB_QUEUE_NOT_ACTIVE
   \<and> lsf_driver_get_job_status c run driver None w = (Inr (JOB_QUEUE_NOT_ACTIVE, driver), w)"
  by (simp add: lsf_driver_get_job_status_shell_def lsf_driver_get_job_status_def
      lsf_driver_get_job_status_lsf_def lsf_driver_convert_status_def convert_status_map_def
      convert_status_map_entries_def)

subsection \<open>The command builder\<close>

text \<open>
  \<^bold>\<open>C8.\<close> When the driver's configuration gives a composed resource string \<open>req\<close>,
  the string passed on is \<open>req\<close> between two double quotes for the remote shell method
  and \<open>req\<close> itself for every other method, and this string follows \<open>-R\<close> in the
  argument list of the submit command.
\<close>

theorem quoted_iff_remote_shell:
  assumes "alloc_quoted_resource_string_req driver = Inr (Some req)"
  shows "alloc_quoted_resource_string driver
           = Inr (Some (if submit_method driver = LSF_SUBMIT_REMOTE_SHELL
                        then [CHR 0x22] @ req @ [CHR 0x22] else req))
         \<and> (\<exists>pre post.
              lsf_driver_alloc_cmd driver lsf_stdout name submit_cmd num_cpu job_argv
                = Inr (pre @ [''-R'', if submit_method driver = LSF_SUBMIT_REMOTE_SHELL
                                      then [CHR 0x22] @ req @ [CHR 0x22] else req] @ post))"
proof -
  let ?q = "if submit_method driver = LSF_SUBMIT_REMOTE_SHELL
            then [CHR 0x22] @ req @ [CHR 0x22] else req"
  have q: "alloc_quoted_resource_string driver = Inr (Some ?q)"
    using assms by (simp add: alloc_quoted_resource_string_def)
  let ?pre = "(if submit_method driver = LSF_SUBMIT_REMOTE_SHELL then [bsub_cmd driver] else [])
               @ [''-o'', lsf_stdout]
               @ (case queue_name driver of Some q \<Rightarrow> [''-q'', q] | None \<Rightarrow> [])
               @ [''-J'', name, ''-n'', sprintf_d num_cpu]"
  let ?post = "(case login_shell driver of Some l \<Rightarrow> [''-L'', l] | None \<Rightarrow> [])
               @ (case project_code driver of Some p \<Rightarrow> [''-P'', p] | None \<Rightarrow> [])
               @ [submit_cmd] @ job_argv"
  have "lsf_driver_alloc_cmd driver lsf_stdout name submit_cmd num_cpu job_argv
          = Inr (?pre @ [''-R'', ?q] @ ?post)"
    unfolding lsf_driver_alloc_cmd_def q by simp
  then show ?thesis using q by blast
qed

subsection \<open>Refreshing the status cache\<close>



lemma update_loop_overflow:
  assumes "overflow_listed ls"
  shows "\<exists>e w'. update_bjobs_table_loop c ls driver w = (Inl e, w')"
  using assms
proof (induction ls arbitrary: driver w)
  case Nil
  then show ?case by (simp add: overflow_listed_def)
next
  case (Cons line rest)
  show ?case
  proof (cases "sscanf_d_s_s line")
    case Sscanf_overflow
    then show ?thesis by simp
  next
    case Sscanf_less
    then have "overflow_listed rest" using Cons.prems by (simp add: overflow_listed_def)
    from Cons.IH [OF this] Sscanf_less show ?thesis by simp
  next
    case (Sscanf_3 job_id_int user status)
    then have o: "overflow_listed rest" using Cons.prems by (simp add: overflow_listed_def)
    show ?thesis
    proof (cases "sprintf_d job_id_int \<in> my_jobs driver")
      case False
      from Cons.IH [OF o] Sscanf_3 False show ?thesis by simp
    next
      case True
      show ?thesis
      proof (cases "status_map c status")
        case None
        then show ?thesis using Sscanf_3 True by simp
      next
        case (Some found_status)
        from Cons.IH [OF o] Sscanf_3 True Some show ?thesis by (simp add: Let_def)
      qed
    qed
  qed
qed






lemma wrapped_job_id_entry: "bjobs_line_entry ''4294967338 alice RUN'' = Some (''42'', ''RUN'')"
  by (simp add: bjobs_line_entry_def scan_defs)







subsection \<open>Status lookup\<close>

lemma update_loop_trace:
  "e \<in> set (trace w) \<Longrightarrow> e \<in> set (trace (snd (update_bjobs_table_loop c ls driver w)))"
proof (induction ls arbitrary: driver w)
  case Nil
  then show ?case by simp
next
  case (Cons line rest)
  then show ?case
    by (auto simp: Let_def log_event_def split: option.splits sscanf_result.splits)
qed

lemma update_loop_clock:
  "clock_usec (snd (update_bjobs_table_loop c ls driver w)) = clock_usec w"
  by (induction ls arbitrary: driver w)
     (auto simp: Let_def log_event_def split: option.splits sscanf_result.splits)

lemma update_table_clears:
  "Hash_clear Bjobs_cache \<in> set (trace (snd (lsf_driver_update_bjobs_table c run driver w)))"
  by (auto simp: lsf_driver_update_bjobs_table_def log_event_def split: prod.splits
      intro!: update_loop_trace)

lemma update_table_clock:
  "clock_usec (snd (lsf_driver_update_bjobs_table c run driver w))
     = clock_usec (snd (update_bjobs_table_spawn run driver w))"
  by (auto simp: lsf_driver_update_bjobs_table_def log_event_def update_loop_clock
      split: prod.splits)

lemma update_loop_only_cache:
  "update_bjobs_table_loop c ls driver w = (Inr driver', w')
     \<Longrightarrow> \<exists>m. driver' = driver\<lparr>bjobs_cache := m\<rparr>"
proof (induction ls arbitrary: driver w)
  case Nil
  then have "driver' = driver\<lparr>bjobs_cache := bjobs_cache driver\<rparr>" by simp
  then show ?case by blast
next
  case (Cons line rest)
  show ?case
  proof (cases "sscanf_d_s_s line")
    case Sscanf_overflow
    with Cons.prems show ?thesis by simp
  next
    case Sscanf_less
    with Cons show ?thesis by simp
  next
    case (Sscanf_3 job_id_int user status)
    show ?thesis
    proof (cases "sprintf_d job_id_int \<in> my_jobs driver")
      case False
      with Cons Sscanf_3 show ?thesis by simp
    next
      case True
      show ?thesis
      proof (cases "status_map c status")
        case None
        with Cons.prems Sscanf_3 True show ?thesis by simp
      next
        case (Some found_status)
        let ?d = "driver\<lparr>bjobs_cache := (bjobs_cache driver)(sprintf_d job_id_int \<mapsto> found_status)\<rparr>"
        have "update_bjobs_table_loop c rest ?d
                (log_event (Hash_insert Bjobs_cache (sprintf_d job_id_int)) w) = (Inr driver', w')"
          using Cons.prems Sscanf_3 True Some by (simp add: Let_def)
        from Cons.IH [OF this] obtain m where "driver' = ?d\<lparr>bjobs_cache := m\<rparr>" by blast
        then have "driver' = driver\<lparr>bjobs_cache := m\<rparr>" by simp
        then show ?thesis by blast
      qed
    qed
  qed
qed

lemma update_table_only_cache:
  "lsf_driver_update_bjobs_table c run driver w = (Inr driver', w')
     \<Longrightarrow> \<exists>m. driver' = driver\<lparr>bjobs_cache := m\<rparr>"
proof -
  assume a: "lsf_driver_update_bjobs_table c run driver w = (Inr driver', w')"
  obtain tmp_file w1 where sp: "update_bjobs_table_spawn run driver w = (tmp_file, w1)"
    by (cases "update_bjobs_table_spawn run driver w")
  from a sp have "update_bjobs_table_loop c (util_fscanf_alloc_lines (util_fskip_lines 1 tmp_file))
       (driver\<lparr>bjobs_cache := Map.empty\<rparr>) (log_event (Hash_clear Bjobs_cache) w1) = (Inr driver', w')"
    by (simp add: lsf_driver_update_bjobs_table_def)
  from update_loop_only_cache [OF this] obtain m where
    "driver' = driver\<lparr>bjobs_cache := Map.empty\<rparr>\<lparr>bjobs_cache := m\<rparr>" by blast
  then have "driver' = driver\<lparr>bjobs_cache := m\<rparr>" by simp
  then show ?thesis by blast
qed

lemma update_spawn_clock:
  "clock_usec (snd (update_bjobs_table_spawn run driver (log_event e w)))
     = clock_usec (snd (update_bjobs_table_spawn run driver w))"
  by (simp add: update_bjobs_table_spawn_def spawn_blocking_def log_event_def split: prod.splits)

lemma run_bhist_trace:
  "e \<in> set (trace w) \<Longrightarrow> e \<in> set (trace (snd (lsf_driver_run_bhist run driver job w)))"
  by (auto simp: lsf_driver_run_bhist_def spawn_blocking_def log_event_def split: prod.splits)

lemma bhist_status_trace:
  "e \<in> set (trace w)
     \<Longrightarrow> e \<in> set (trace (snd (lsf_driver_get_bhist_status_shell c run driver job w)))"
proof -
  assume e: "e \<in> set (trace w)"
  obtain s1 w1 where r1: "lsf_driver_run_bhist run driver job w = (s1, w1)"
    by (cases "lsf_driver_run_bhist run driver job w")
  have e1: "e \<in> set (trace w1)" using run_bhist_trace [OF e, of run driver job] r1 by simp
  obtain s2 w2 where r2: "lsf_driver_run_bhist run driver job (sleep 4 w1) = (s2, w2)"
    by (cases "lsf_driver_run_bhist run driver job (sleep 4 w1)")
  have "e \<in> set (trace (sleep 4 w1))" using e1 by (simp add: sleep_def log_event_def)
  from run_bhist_trace [OF this, of run driver job] r2 have e2: "e \<in> set (trace w2)" by simp
  show ?thesis
    using r1 r2 e1 e2
    by (auto simp: lsf_driver_get_bhist_status_shell_def Let_def split: option.splits)
qed

lemma lookup_without_refresh:
  assumes "key \<in> dom (bjobs_cache driver)"
    and "\<not> time_NULL w - last_bjobs_update driver > bjobs_refresh_interval driver"
  shows "lsf_driver_get_job_status_shell c run driver (Some (job\<lparr>lsf_jobnr_char := Some key\<rparr>)) w
           = (Inr (the (bjobs_cache driver key), driver),
              log_event (Mutex_unlock Bjobs_mutex) (log_event (Mutex_lock Bjobs_mutex) w))"
proof -
  have "update_cache driver (job\<lparr>lsf_jobnr_char := Some key\<rparr>) (log_event (Mutex_lock Bjobs_mutex) w)
          = Some False"
    using assms by (simp add: update_cache_def hash_has_key_def time_NULL_def log_event_def)
  then show ?thesis
    using assms(1) by (auto simp: lsf_driver_get_job_status_shell_def Let_def)
qed

lemma lookup_with_refresh:
  assumes "time_NULL w - last_bjobs_update driver > bjobs_refresh_interval driver
           \<or> key \<notin> dom (bjobs_cache driver)"
  shows "Hash_clear Bjobs_cache
           \<in> set (trace (snd (lsf_driver_get_job_status_shell c run driver
                                (Some (job\<lparr>lsf_jobnr_char := Some key\<rparr>)) w)))"
proof -
  let ?job = "job\<lparr>lsf_jobnr_char := Some key\<rparr>"
  let ?w1 = "log_event (Mutex_lock Bjobs_mutex) w"
  have uc: "update_cache driver ?job ?w1 = Some True"
    using assms by (auto simp: update_cache_def hash_has_key_def time_NULL_def log_event_def)
  obtain r w2 where up: "lsf_driver_update_bjobs_table c run driver ?w1 = (r, w2)"
    by (cases "lsf_driver_update_bjobs_table c run driver ?w1")
  have c2: "Hash_clear Bjobs_cache \<in> set (trace w2)"
    using update_table_clears [of c run driver ?w1] up by simp
  show ?thesis
  proof (cases r)
    case (Inl e)
    then show ?thesis using uc up c2 by (simp add: lsf_driver_get_job_status_shell_def Let_def)
  next
    case (Inr driver1)
    let ?d2 = "driver1\<lparr>last_bjobs_update := time_NULL w2\<rparr>"
    let ?w3 = "log_event (Mutex_unlock Bjobs_mutex) w2"
    have c3: "Hash_clear Bjobs_cache \<in> set (trace ?w3)" using c2 by (simp add: log_event_def)
    show ?thesis
    proof (cases "bjobs_cache driver1 key")
      case (Some status)
      then show ?thesis
        using uc up Inr c3 by (simp add: lsf_driver_get_job_status_shell_def Let_def)
    next
      case None
      obtain status w4 where bh:
        "lsf_driver_get_bhist_status_shell c run (?d2\<lparr>debug_output := True\<rparr>) ?job ?w3 = (status, w4)"
        by (cases "lsf_driver_get_bhist_status_shell c run (?d2\<lparr>debug_output := True\<rparr>) ?job ?w3")
      have "Hash_clear Bjobs_cache \<in> set (trace w4)"
        using bhist_status_trace [OF c3, of c run "?d2\<lparr>debug_output := True\<rparr>" ?job] bh by simp
      then show ?thesis
        using uc up Inr None bh
        by (simp add: lsf_driver_get_job_status_shell_def Let_def log_event_def)
    qed
  qed
qed

lemma lookup_refresh_time:
  assumes "time_NULL w - last_bjobs_update driver > bjobs_refresh_interval driver
           \<or> key \<notin> dom (bjobs_cache driver)"
    and "lsf_driver_get_job_status_shell c run driver (Some (job\<lparr>lsf_jobnr_char := Some key\<rparr>)) w
           = (Inr (status, driver'), w')"
  shows "last_bjobs_update driver' = time_NULL (snd (update_bjobs_table_spawn run driver w))
         \<and> bjobs_refresh_interval driver' = bjobs_refresh_interval driver
         \<and> key \<in> dom (bjobs_cache driver')"
proof -
  let ?job = "job\<lparr>lsf_jobnr_char := Some key\<rparr>"
  let ?w1 = "log_event (Mutex_lock Bjobs_mutex) w"
  have uc: "update_cache driver ?job ?w1 = Some True"
    using assms(1) by (auto simp: update_cache_def hash_has_key_def time_NULL_def log_event_def)
  obtain r w2 where up: "lsf_driver_update_bjobs_table c run driver ?w1 = (r, w2)"
    by (cases "lsf_driver_update_bjobs_table c run driver ?w1")
  have t2: "time_NULL w2 = time_NULL (snd (update_bjobs_table_spawn run driver w))"
    using update_table_clock [of c run driver ?w1] up
    by (simp add: time_NULL_def update_spawn_clock)
  show ?thesis
  proof (cases r)
    case (Inl e)
    then show ?thesis
      using uc up assms(2) by (simp add: lsf_driver_get_job_status_shell_def Let_def)
  next
    case (Inr driver1)
    from update_table_only_cache [of c run driver ?w1 driver1 w2] up Inr
    obtain m where d1: "driver1 = driver\<lparr>bjobs_cache := m\<rparr>" by auto
    let ?d2 = "driver1\<lparr>last_bjobs_update := time_NULL w2\<rparr>"
    let ?w3 = "log_event (Mutex_unlock Bjobs_mutex) w2"
    show ?thesis
    proof (cases "bjobs_cache driver1 key")
      case (Some st)
      then have "driver' = ?d2"
        using uc up Inr assms(2) by (simp add: lsf_driver_get_job_status_shell_def Let_def)
      then show ?thesis using Some d1 t2 by auto
    next
      case None
      obtain st w4 where bh:
        "lsf_driver_get_bhist_status_shell c run (?d2\<lparr>debug_output := True\<rparr>) ?job ?w3 = (st, w4)"
        by (cases "lsf_driver_get_bhist_status_shell c run (?d2\<lparr>debug_output := True\<rparr>) ?job ?w3")
      have "driver' = ?d2\<lparr>debug_output := True,
                           bjobs_cache := (bjobs_cache driver1)(key \<mapsto> st)\<rparr>"
        using uc up Inr None bh assms(2)
        by (auto simp: lsf_driver_get_job_status_shell_def Let_def)
      then show ?thesis using d1 t2 by auto
    qed
  qed
qed

lemma lookup_refresh_cache:
  assumes "time_NULL w - last_bjobs_update driver > bjobs_refresh_interval driver
           \<or> key \<notin> dom (bjobs_cache driver)"
    and "lsf_driver_get_job_status_shell c run driver (Some (job\<lparr>lsf_jobnr_char := Some key\<rparr>)) w
           = (Inr (status, driver'), w')"
  shows "\<exists>driver1 w2.
           lsf_driver_update_bjobs_table c run driver (log_event (Mutex_lock Bjobs_mutex) w)
             = (Inr driver1, w2)
           \<and> bjobs_cache driver'
               = (case bjobs_cache driver1 key of
                    Some cached \<Rightarrow> bjobs_cache driver1
                  | None \<Rightarrow> (bjobs_cache driver1)(key \<mapsto> status))
           \<and> bjobs_cache driver' key = Some status"
proof -
  let ?job = "job\<lparr>lsf_jobnr_char := Some key\<rparr>"
  let ?w1 = "log_event (Mutex_lock Bjobs_mutex) w"
  have uc: "update_cache driver ?job ?w1 = Some True"
    using assms(1) by (auto simp: update_cache_def hash_has_key_def time_NULL_def log_event_def)
  obtain r w2 where up: "lsf_driver_update_bjobs_table c run driver ?w1 = (r, w2)"
    by (cases "lsf_driver_update_bjobs_table c run driver ?w1")
  show ?thesis
  proof (cases r)
    case (Inl e)
    then show ?thesis
      using uc up assms(2) by (simp add: lsf_driver_get_job_status_shell_def Let_def)
  next
    case (Inr driver1)
    let ?d2 = "driver1\<lparr>last_bjobs_update := time_NULL w2\<rparr>"
    let ?w3 = "log_event (Mutex_unlock Bjobs_mutex) w2"
    show ?thesis
    proof (cases "bjobs_cache driver1 key")
      case (Some cached)
      then have "driver' = ?d2 \<and> status = cached"
        using uc up Inr assms(2) by (auto simp: lsf_driver_get_job_status_shell_def Let_def)
      then show ?thesis using Some up Inr by simp
    next
      case None
      obtain st w4 where bh:
        "lsf_driver_get_bhist_status_shell c run (?d2\<lparr>debug_output := True\<rparr>) ?job ?w3 = (st, w4)"
        by (cases "lsf_driver_get_bhist_status_shell c run (?d2\<lparr>debug_output := True\<rparr>) ?job ?w3")
      have "driver' = ?d2\<lparr>debug_output := True,
                           bjobs_cache := (bjobs_cache driver1)(key \<mapsto> st)\<rparr> \<and> status = st"
        using uc up Inr None bh assms(2)
        by (auto simp: lsf_driver_get_job_status_shell_def Let_def)
      then show ?thesis using None up Inr by simp
    qed
  qed
qed

lemma lookup_refresh_fatal:
  assumes "time_NULL w - last_bjobs_update driver > bjobs_refresh_interval driver
           \<or> key \<notin> dom (bjobs_cache driver)"
    and "lsf_driver_update_bjobs_table c run driver (log_event (Mutex_lock Bjobs_mutex) w)
           = (Inl e, w2)"
  shows "lsf_driver_get_job_status_shell c run driver (Some (job\<lparr>lsf_jobnr_char := Some key\<rparr>)) w
           = (Inl e, w2)"
proof -
  have "update_cache driver (job\<lparr>lsf_jobnr_char := Some key\<rparr>)
          (log_event (Mutex_lock Bjobs_mutex) w) = Some True"
    using assms(1) by (auto simp: update_cache_def hash_has_key_def time_NULL_def log_event_def)
  then show ?thesis
    using assms(2) by (simp add: lsf_driver_get_job_status_shell_def Let_def)
qed

text \<open>
  \<^bold>\<open>C6.\<close> A status lookup for a job (a handle with an id string) clears and rebuilds
  the cache if and only if more seconds than the refresh interval have passed since
  \<open>last_bjobs_update\<close> or the id is not a key of the cache. So a lookup of a cached id
  within the interval returns the cached code and changes nothing in the driver. A
  lookup that refreshes and returns leaves \<open>last_bjobs_update\<close> at the time the listing
  command ended, keeps the interval, and leaves the id in the cache (from the listing or
  from the history probe): the interval of the next lookups counts from that refresh.
  The cache such a lookup leaves is the one \<open>lsf_driver_update_bjobs_table\<close> has
  rebuilt, with the result of the history probe added when the listing did not have the
  id; and when the refresh ends the process, so does the lookup.
\<close>

theorem refresh_predicate:
  "(Hash_clear Bjobs_cache
      \<in> set (trace (snd (lsf_driver_get_job_status_shell c run driver
                           (Some (job\<lparr>lsf_jobnr_char := Some key\<rparr>)) (w\<lparr>trace := []\<rparr>))))
     \<longleftrightarrow> time_NULL w - last_bjobs_update driver > bjobs_refresh_interval driver
          \<or> key \<notin> dom (bjobs_cache driver))
   \<and> (key \<in> dom (bjobs_cache driver)
        \<and> time_NULL w - last_bjobs_update driver \<le> bjobs_refresh_interval driver
      \<longrightarrow> lsf_driver_get_job_status_shell c run driver (Some (job\<lparr>lsf_jobnr_char := Some key\<rparr>)) w
            = (Inr (the (bjobs_cache driver key), driver),
               log_event (Mutex_unlock Bjobs_mutex) (log_event (Mutex_lock Bjobs_mutex) w)))
   \<and> ((time_NULL w - last_bjobs_update driver > bjobs_refresh_interval driver
         \<or> key \<notin> dom (bjobs_cache driver))
        \<and> lsf_driver_get_job_status_shell c run driver (Some (job\<lparr>lsf_jobnr_char := Some key\<rparr>)) w
            = (Inr (status, driver'), w')
      \<longrightarrow> last_bjobs_update driver' = time_NULL (snd (update_bjobs_table_spawn run driver w))
          \<and> bjobs_refresh_interval driver' = bjobs_refresh_interval driver
          \<and> key \<in> dom (bjobs_cache driver'))
   \<and> ((time_NULL w - last_bjobs_update driver > bjobs_refresh_interval driver
         \<or> key \<notin> dom (bjobs_cache driver))
        \<and> lsf_driver_get_job_status_shell c run driver (Some (job\<lparr>lsf_jobnr_char := Some key\<rparr>)) w
            = (Inr (status, driver'), w')
      \<longrightarrow> (\<exists>driver1 w2.
             lsf_driver_update_bjobs_table c run driver (log_event (Mutex_lock Bjobs_mutex) w)
               = (Inr driver1, w2)
             \<and> bjobs_cache driver'
                 = (case bjobs_cache driver1 key of
                      Some cached \<Rightarrow> bjobs_cache driver1
                    | None \<Rightarrow> (bjobs_cache driver1)(key \<mapsto> status))
             \<and> bjobs_cache driver' key = Some status))
   \<and> ((time_NULL w - last_bjobs_update driver > bjobs_refresh_interval driver
         \<or> key \<notin> dom (bjobs_cache driver))
        \<and> lsf_driver_update_bjobs_table c run driver (log_event (Mutex_lock Bjobs_mutex) w)
            = (Inl e, w2)
      \<longrightarrow> lsf_driver_get_job_status_shell c run driver (Some (job\<lparr>lsf_jobnr_char := Some key\<rparr>)) w
            = (Inl e, w2))"
proof (intro conjI impI)
  let ?w0 = "w\<lparr>trace := []\<rparr>"
  have t0: "time_NULL ?w0 = time_NULL w" by (simp add: time_NULL_def)
  show "Hash_clear Bjobs_cache
      \<in> set (trace (snd (lsf_driver_get_job_status_shell c run driver
                           (Some (job\<lparr>lsf_jobnr_char := Some key\<rparr>)) ?w0)))
     \<longleftrightarrow> time_NULL w - last_bjobs_update driver > bjobs_refresh_interval driver
          \<or> key \<notin> dom (bjobs_cache driver)"
  proof
    assume h: "Hash_clear Bjobs_cache
      \<in> set (trace (snd (lsf_driver_get_job_status_shell c run driver
                           (Some (job\<lparr>lsf_jobnr_char := Some key\<rparr>)) ?w0)))"
    show "time_NULL w - last_bjobs_update driver > bjobs_refresh_interval driver
          \<or> key \<notin> dom (bjobs_cache driver)"
    proof (rule ccontr)
      assume "\<not> ?thesis"
      then have "key \<in> dom (bjobs_cache driver)"
        and "\<not> time_NULL ?w0 - last_bjobs_update driver > bjobs_refresh_interval driver"
        using t0 by auto
      from lookup_without_refresh [OF this, of c run job] h show False
        by (simp add: log_event_def)
    qed
  next
    assume "time_NULL w - last_bjobs_update driver > bjobs_refresh_interval driver
          \<or> key \<notin> dom (bjobs_cache driver)"
    then have "time_NULL ?w0 - last_bjobs_update driver > bjobs_refresh_interval driver
          \<or> key \<notin> dom (bjobs_cache driver)" using t0 by simp
    from lookup_with_refresh [OF this] show "Hash_clear Bjobs_cache
      \<in> set (trace (snd (lsf_driver_get_job_status_shell c run driver
                           (Some (job\<lparr>lsf_jobnr_char := Some key\<rparr>)) ?w0)))" .
  qed
next
  assume "key \<in> dom (bjobs_cache driver)
        \<and> time_NULL w - last_bjobs_update driver \<le> bjobs_refresh_interval driver"
  then have "key \<in> dom (bjobs_cache driver)"
    and "\<not> time_NULL w - last_bjobs_update driver > bjobs_refresh_interval driver" by auto
  from lookup_without_refresh [OF this]
  show "lsf_driver_get_job_status_shell c run driver (Some (job\<lparr>lsf_jobnr_char := Some key\<rparr>)) w
            = (Inr (the (bjobs_cache driver key), driver),
               log_event (Mutex_unlock Bjobs_mutex) (log_event (Mutex_lock Bjobs_mutex) w))" .
next
  assume a: "(time_NULL w - last_bjobs_update driver > bjobs_refresh_interval driver
         \<or> key \<notin> dom (bjobs_cache driver))
        \<and> lsf_driver_get_job_status_shell c run driver (Some (job\<lparr>lsf_jobnr_char := Some key\<rparr>)) w
            = (Inr (status, driver'), w')"
  from lookup_refresh_time [OF conjunct1 [OF a] conjunct2 [OF a]]
  show "last_bjobs_update driver' = time_NULL (snd (update_bjobs_table_spawn run driver w))"
    and "bjobs_refresh_interval driver' = bjobs_refresh_interval driver"
    and "key \<in> dom (bjobs_cache driver')" by auto
next
  assume a: "(time_NULL w - last_bjobs_update driver > bjobs_refresh_interval driver
         \<or> key \<notin> dom (bjobs_cache driver))
        \<and> lsf_driver_get_job_status_shell c run driver (Some (job\<lparr>lsf_jobnr_char := Some key\<rparr>)) w
            = (Inr (status, driver'), w')"
  from lookup_refresh_cache [OF conjunct1 [OF a] conjunct2 [OF a]]
  show "\<exists>driver1 w2.
             lsf_driver_update_bjobs_table c run driver (log_event (Mutex_lock Bjobs_mutex) w)
               = (Inr driver1, w2)
             \<and> bjobs_cache driver'
                 = (case bjobs_cache driver1 key of
                      Some cached \<Rightarrow> bjobs_cache driver1
                    | None \<Rightarrow> (bjobs_cache driver1)(key \<mapsto> status))
             \<and> bjobs_cache driver' key = Some status" .
next
  assume a: "(time_NULL w - last_bjobs_update driver > bjobs_refresh_interval driver
         \<or> key \<notin> dom (bjobs_cache driver))
        \<and> lsf_driver_update_bjobs_table c run driver (log_event (Mutex_lock Bjobs_mutex) w)
            = (Inl e, w2)"
  from lookup_refresh_fatal [OF conjunct1 [OF a] conjunct2 [OF a]]
  show "lsf_driver_get_job_status_shell c run driver (Some (job\<lparr>lsf_jobnr_char := Some key\<rparr>)) w
            = (Inl e, w2)" .
qed

theorem refresh_predicate_witness:
  "''42'' \<notin> dom (bjobs_cache tracking_driver)
   \<and> Hash_clear Bjobs_cache
       \<in> set (trace (snd (lsf_driver_get_job_status_shell lsb_job_stat listing_invoker
                            tracking_driver (Some job42) world0)))
   \<and> ''42'' \<in> dom (bjobs_cache cached_driver)
   \<and> time_NULL world0 - last_bjobs_update cached_driver \<le> bjobs_refresh_interval cached_driver
   \<and> lsf_driver_get_job_status_shell lsb_job_stat listing_invoker cached_driver (Some job42) world0
       = (Inr (4, cached_driver),
          \<lparr>clock_usec = 0, files = Map.empty,
           trace = [Mutex_lock Bjobs_mutex, Mutex_unlock Bjobs_mutex]\<rparr>)"
proof -
  have j: "job42\<lparr>lsf_jobnr_char := Some ''42''\<rparr> = job42" by (simp add: job42_def)
  have w: "world0\<lparr>trace := []\<rparr> = world0" by (simp add: world0_def)
  have a: "''42'' \<notin> dom (bjobs_cache tracking_driver)"
    by (simp add: tracking_driver_def)
  have b: "''42'' \<in> dom (bjobs_cache cached_driver)"
    by (simp add: cached_driver_def)
  have t: "time_NULL world0 - last_bjobs_update cached_driver \<le> bjobs_refresh_interval cached_driver"
    by (simp add: cached_driver_def tracking_driver_def driver_defs world_defs)
  have v: "the (bjobs_cache cached_driver ''42'') = 4" by (simp add: cached_driver_def)
  note r1 = refresh_predicate [where c = lsb_job_stat and run = listing_invoker
        and driver = tracking_driver and job = job42 and key = "''42''" and w = world0,
        THEN conjunct1]
  note r2 = refresh_predicate [where c = lsb_job_stat and run = listing_invoker
        and driver = cached_driver and job = job42 and key = "''42''" and w = world0,
        THEN conjunct2, THEN conjunct1]
  have c1: "Hash_clear Bjobs_cache
       \<in> set (trace (snd (lsf_driver_get_job_status_shell lsb_job_stat listing_invoker
                            tracking_driver (Some job42) world0)))"
    using r1 a unfolding j w by blast
  have c2: "lsf_driver_get_job_status_shell lsb_job_stat listing_invoker cached_driver (Some job42) world0
       = (Inr (the (bjobs_cache cached_driver ''42''), cached_driver),
          log_event (Mutex_unlock Bjobs_mutex) (log_event (Mutex_lock Bjobs_mutex) world0))"
    using r2 b t unfolding j by blast
  have w2: "log_event (Mutex_unlock Bjobs_mutex) (log_event (Mutex_lock Bjobs_mutex) world0)
       = \<lparr>clock_usec = 0, files = Map.empty,
           trace = [Mutex_lock Bjobs_mutex, Mutex_unlock Bjobs_mutex]\<rparr>"
    by (simp add: world_defs)
  show ?thesis
    using a b t c1 c2 unfolding v w2 by blast
qed

subsection \<open>Submission\<close>

lemma digit_char_digit: "digit_char k \<in> set ''0123456789''"
  unfolding digit_char_def by (rule nth_mem) simp

lemma string_of_nat_digits: "ch \<in> set (string_of_nat n) \<Longrightarrow> ch \<in> set ''0123456789''"
proof (induction n rule: string_of_nat.induct)
  case (1 n)
  show ?case
  proof (cases "n < 10")
    case True
    then have eq: "string_of_nat n = [digit_char n]" by (subst string_of_nat.simps) simp
    have "ch = digit_char n" using "1.prems" unfolding eq by simp
    then show ?thesis using digit_char_digit by blast
  next
    case False
    then have eq: "string_of_nat n = string_of_nat (n div 10) @ [digit_char (n mod 10)]"
      by (subst string_of_nat.simps) simp
    have "ch \<in> set (string_of_nat (n div 10)) \<or> ch = digit_char (n mod 10)"
      using "1.prems" unfolding eq by auto
    then show ?thesis using "1.IH" [OF False] digit_char_digit by blast
  qed
qed

lemma sprintf_d_chars: "ch \<in> set (sprintf_d i) \<Longrightarrow> ch \<in> set ''-0123456789''"
proof (cases "i < 0")
  case True
  assume "ch \<in> set (sprintf_d i)"
  then have "ch = CHR ''-'' \<or> ch \<in> set (string_of_nat (nat (- i)))"
    using True by (simp add: sprintf_d_def)
  then show ?thesis using string_of_nat_digits [of ch "nat (- i)"] by auto
next
  case False
  assume "ch \<in> set (sprintf_d i)"
  then have "ch \<in> set (string_of_nat (nat i))"
    using False by (simp add: sprintf_d_def)
  then show ?thesis using string_of_nat_digits [of ch "nat i"] by auto
qed

lemma json_strip_ws_plain:
  "(\<And>ch. ch \<in> set ds \<Longrightarrow> ch \<in> set ''-0123456789'')
     \<Longrightarrow> json_strip_ws False (ds @ rest) = ds @ json_strip_ws False rest"
proof (induction ds)
  case Nil
  then show ?case by simp
next
  case (Cons d ds)
  have "d \<in> set ''-0123456789''" using Cons.prems by simp
  then have "d \<notin> set [CHR '' '', CHR 0x09, CHR 0x0A, CHR 0x0D]" and "d \<noteq> CHR 0x22"
    by auto
  moreover have "json_strip_ws False (ds @ rest) = ds @ json_strip_ws False rest"
    using Cons by simp
  ultimately show ?case by simp
qed

lemma receipt_json_same:
  "json_strip_ws False (lsf_json_text jobnr) = json_strip_ws False (spec_receipt_json jobnr)"
proof -
  have "json_strip_ws False (sprintf_d jobnr @ rest) = sprintf_d jobnr @ json_strip_ws False rest"
    for rest
    by (rule json_strip_ws_plain) (rule sprintf_d_chars)
  then show ?thesis
    by (simp add: lsf_json_text_def spec_receipt_json_def)
qed

lemma submit_shell_job_trace:
  assumes "lsf_driver_submit_shell_job run driver lsf_stdout name submit_cmd num_cpu job_argv w
             = (r, w3)"
  shows "\<exists>evs. trace w3 = trace w @ evs
               \<and> (\<forall>e \<in> set evs. \<exists>x n a. e = Spawn_blocking x n a)
               \<and> files w3 = files w"
proof (cases "lsf_driver_alloc_cmd driver lsf_stdout name submit_cmd num_cpu job_argv")
  case (Inl e)
  then have "w3 = w" using assms by (simp add: lsf_driver_submit_shell_job_def)
  then show ?thesis by simp
next
  case (Inr remote_argv)
  consider (remote) "submit_method driver = LSF_SUBMIT_REMOTE_SHELL"
    | (local) "submit_method driver = LSF_SUBMIT_LOCAL_SHELL"
    | (other) "submit_method driver \<noteq> LSF_SUBMIT_REMOTE_SHELL"
        "submit_method driver \<noteq> LSF_SUBMIT_LOCAL_SHELL"
    by blast
  then show ?thesis
  proof cases
    case remote
    then have "trace w3 = trace w @ [Spawn_blocking (rsh_cmd driver) 2
                 [remote_lsf_server driver, Some (ert_join remote_argv '' '')]]
               \<and> files w3 = files w"
      using assms Inr
      by (auto simp: lsf_driver_submit_shell_job_def spawn_blocking_def log_event_def
          split: prod.splits)
    then show ?thesis by simp
  next
    case local
    then have "trace w3 = trace w @ [Spawn_blocking (bsub_cmd driver) (int (length remote_argv))
                 (map Some remote_argv)]
               \<and> files w3 = files w"
      using assms Inr
      by (auto simp: lsf_driver_submit_shell_job_def spawn_blocking_def log_event_def
          split: prod.splits)
    then show ?thesis by simp
  next
    case other
    then have "w3 = w" using assms Inr by (simp add: lsf_driver_submit_shell_job_def)
    then show ?thesis by simp
  qed
qed

lemma event_under_lock_spawns:
  assumes "\<forall>e \<in> set evs. \<exists>x n a. e = Spawn_blocking x n a"
    and "\<And>x n a. ev \<noteq> Spawn_blocking x n a"
  shows "event_under_lock m ev held (evs @ rest) = event_under_lock m ev held rest"
  using assms
proof (induction evs)
  case Nil
  then show ?case by simp
next
  case (Cons e evs)
  then obtain x n a where e: "e = Spawn_blocking x n a" by auto
  have "e \<noteq> ev" using Cons.prems(2) e by auto
  then show ?case using Cons e by simp
qed

text \<open>
  \<^bold>\<open>C5.\<close> A submission whose command yields the job id \<open>jobnr > 0\<close>: the id string
  is inserted into \<open>my_jobs\<close>, and the insertion happens between taking and releasing
  the submission lock; the file \<open>lsf_info.json\<close> in the run directory holds the text
  \<open>{"job_id" : jobnr}\<close> and a line feed, which is the JSON object \<open>{"job_id": jobnr}\<close>
  (the two texts are equal up to insignificant white space); and the returned handle has
  the number \<open>jobnr\<close> and its decimal string.
\<close>

theorem submit_success:
  assumes "submit_method driver \<noteq> LSF_SUBMIT_INVALID"
    and "lsf_driver_submit_shell_job run driver
           (util_alloc_filename (Some run_path) name (Some ''LSF-stdout''))
           name submit_cmd num_cpu job_argv
           (log_event (Mutex_lock Submit_lock) (usleep (submit_sleep driver) w)) = (Inr jobnr, w3)"
    and "jobnr > 0"
  shows "\<exists>job w'.
           lsf_driver_submit_job run driver submit_cmd num_cpu run_path name job_argv w
             = (Inr (Some job, driver\<lparr>my_jobs := insert (sprintf_d jobnr) (my_jobs driver)\<rparr>), w')
           \<and> lsf_jobnr job = jobnr
           \<and> lsf_jobnr_char job = Some (sprintf_d jobnr)
           \<and> files w' (run_path @ ''/lsf_info.json'') = Some (lsf_json_text jobnr)
           \<and> json_strip_ws False (lsf_json_text jobnr)
               = json_strip_ws False (spec_receipt_json jobnr)
           \<and> Hash_insert My_jobs (sprintf_d jobnr) \<in> set (drop (length (trace w)) (trace w'))
           \<and> event_under_lock Submit_lock (Hash_insert My_jobs (sprintf_d jobnr)) False
                (drop (length (trace w)) (trace w'))"
proof -
  let ?key = "sprintf_d jobnr"
  let ?w2 = "log_event (Mutex_lock Submit_lock) (usleep (submit_sleep driver) w)"
  let ?job = "(lsf_job_alloc name)\<lparr>lsf_jobnr := jobnr, lsf_jobnr_char := Some ?key\<rparr>"
  let ?w4 = "log_event (Mutex_unlock Submit_lock) (log_event (Hash_insert My_jobs ?key) w3)"
  let ?path = "util_alloc_filename (Some run_path) LSF_JSON None"
  let ?w5 = "log_event (Fprintf ?path (lsf_json_text jobnr))
               (?w4\<lparr>files := (files ?w4)(?path \<mapsto> lsf_json_text jobnr)\<rparr>)"
  have res: "lsf_driver_submit_job run driver submit_cmd num_cpu run_path name job_argv w
          = (Inr (Some ?job, driver\<lparr>my_jobs := insert ?key (my_jobs driver)\<rparr>), ?w5)"
    using assms by (simp add: lsf_driver_submit_job_def Let_def)
  have path: "?path = run_path @ ''/lsf_info.json''"
    by (simp add: util_alloc_filename_def LSF_JSON_def)
  from submit_shell_job_trace [OF assms(2)] obtain evs where
    evs: "trace w3 = trace ?w2 @ evs" "\<forall>e \<in> set evs. \<exists>x n a. e = Spawn_blocking x n a"
    by blast
  have tr: "drop (length (trace w)) (trace ?w5)
          = [Usleep (submit_sleep driver), Mutex_lock Submit_lock]
            @ evs @ [Hash_insert My_jobs ?key, Mutex_unlock Submit_lock,
                     Fprintf ?path (lsf_json_text jobnr)]"
    using evs(1) by (simp add: log_event_def usleep_def)
  have ul: "event_under_lock Submit_lock (Hash_insert My_jobs ?key) False
              (drop (length (trace w)) (trace ?w5))"
    unfolding tr
    using event_under_lock_spawns [OF evs(2), of "Hash_insert My_jobs ?key" Submit_lock True
        "[Hash_insert My_jobs ?key, Mutex_unlock Submit_lock, Fprintf ?path (lsf_json_text jobnr)]"]
    by simp
  have mem: "Hash_insert My_jobs ?key \<in> set (drop (length (trace w)) (trace ?w5))"
    unfolding tr by simp
  have f: "files ?w5 (run_path @ ''/lsf_info.json'') = Some (lsf_json_text jobnr)"
    by (simp add: log_event_def path)
  have j: "lsf_jobnr ?job = jobnr \<and> lsf_jobnr_char ?job = Some ?key" by simp
  show ?thesis
    using res j f receipt_json_same [of jobnr] mem ul by blast
qed

lemma submit_shell_job_42:
  "fst (lsf_driver_submit_shell_job submit_invoker local_driver
          (util_alloc_filename (Some ''/tmp/run'') ''job42'' (Some ''LSF-stdout''))
          ''job42'' ''run.sh'' 1 []
          (log_event (Mutex_lock Submit_lock) (usleep (submit_sleep local_driver) world0)))
     = Inr 42"
proof -
  have p: "lsf_job_parse_bsub_stdout ''bsub'' bsub_text = Inr 42"
    by (simp add: lsf_job_parse_bsub_stdout_def bsub_text_def util_sscanf_int_def scan_defs)
  have a: "lsf_driver_alloc_cmd local_driver lsf_stdout ''job42'' ''run.sh'' 1 []
             = Inr [''-o'', lsf_stdout, ''-J'', ''job42'', ''-n'', ''1'', ''run.sh'']"
    for lsf_stdout
    by (simp add: lsf_driver_alloc_cmd_def alloc_quoted_resource_string_def
        alloc_quoted_resource_string_req_def driver_defs scan_defs)
  show ?thesis
    unfolding lsf_driver_submit_shell_job_def a
    by (simp add: submit_invoker_def spawn_blocking_def p driver_defs)
qed

theorem submit_success_witness:
  "submit_method local_driver \<noteq> LSF_SUBMIT_INVALID
   \<and> fst (lsf_driver_submit_shell_job submit_invoker local_driver
          (util_alloc_filename (Some ''/tmp/run'') ''job42'' (Some ''LSF-stdout''))
          ''job42'' ''run.sh'' 1 []
          (log_event (Mutex_lock Submit_lock) (usleep (submit_sleep local_driver) world0)))
       = Inr 42
   \<and> (case fst (lsf_driver_submit_job submit_invoker local_driver ''run.sh'' 1 ''/tmp/run''
                   ''job42'' [] world0) of
         Inr (Some job, driver') \<Rightarrow> lsf_jobnr job = 42 \<and> my_jobs driver' = {''42''}
       | _ \<Rightarrow> False)
   \<and> files (snd (lsf_driver_submit_job submit_invoker local_driver ''run.sh'' 1 ''/tmp/run''
                   ''job42'' [] world0)) ''/tmp/run/lsf_info.json''
       = Some (''{'' @ [CHR 0x22] @ ''job_id'' @ [CHR 0x22] @ '' : 42}'' @ [CHR 0x0A])"
proof -
  have m: "submit_method local_driver \<noteq> LSF_SUBMIT_INVALID" by (simp add: driver_defs)
  let ?r = "lsf_driver_submit_shell_job submit_invoker local_driver
          (util_alloc_filename (Some ''/tmp/run'') ''job42'' (Some ''LSF-stdout''))
          ''job42'' ''run.sh'' 1 []
          (log_event (Mutex_lock Submit_lock) (usleep (submit_sleep local_driver) world0))"
  have h: "?r = (Inr 42, snd ?r)"
    using submit_shell_job_42 by (metis surjective_pairing)
  have k: "sprintf_d 42 = ''42''" by (simp add: scan_defs)
  have t: "lsf_json_text 42 = ''{'' @ [CHR 0x22] @ ''job_id'' @ [CHR 0x22] @ '' : 42}'' @ [CHR 0x0A]"
    by (simp add: lsf_json_text_def k)
  have e: "my_jobs local_driver = {}" by (simp add: driver_defs)
  from submit_success [OF m h] obtain job w' where
    r: "lsf_driver_submit_job submit_invoker local_driver ''run.sh'' 1 ''/tmp/run'' ''job42'' [] world0
         = (Inr (Some job, local_driver\<lparr>my_jobs := insert (sprintf_d 42) (my_jobs local_driver)\<rparr>), w')"
      "lsf_jobnr job = 42"
      "files w' (''/tmp/run'' @ ''/lsf_info.json'') = Some (lsf_json_text 42)"
    by auto
  show ?thesis
    using m submit_shell_job_42 r unfolding t k e by simp
qed

subsection \<open>Failed submission\<close>

lemma parse_no_output: "lsf_job_parse_bsub_stdout bsub [] = Inr 0"
  by (simp add: lsf_job_parse_bsub_stdout_def)

lemma alloc_cmd_no_resource_request:
  assumes "resource_request driver = None"
  shows "\<exists>remote_argv. lsf_driver_alloc_cmd driver lsf_stdout name submit_cmd num_cpu job_argv
           = Inr remote_argv"
proof -
  have "\<exists>q. alloc_quoted_resource_string_req driver = Inr q"
    using assms by (simp add: alloc_quoted_resource_string_req_def Let_def)
  then obtain q where q: "alloc_quoted_resource_string_req driver = Inr q" by blast
  have "\<exists>q'. alloc_quoted_resource_string driver = Inr q'"
    unfolding alloc_quoted_resource_string_def q by (cases q) auto
  then obtain q' where "alloc_quoted_resource_string driver = Inr q'" by blast
  then show ?thesis by (simp add: lsf_driver_alloc_cmd_def Let_def)
qed

lemma submit_shell_job_no_output:
  assumes "\<forall>t x a. fst (run t x a) = []"
    and "resource_request driver = None"
  shows "fst (lsf_driver_submit_shell_job run driver lsf_stdout name submit_cmd num_cpu job_argv w)
           = Inr 0"
proof -
  from alloc_cmd_no_resource_request [OF assms(2)] obtain remote_argv where
    a: "lsf_driver_alloc_cmd driver lsf_stdout name submit_cmd num_cpu job_argv = Inr remote_argv"
    by blast
  have sp: "fst (spawn_blocking run x n args w) = []" for x n args
  proof -
    have "fst (run (clock_usec w) x args) = []" using assms(1) by blast
    then show ?thesis
      by (cases "run (clock_usec w) x args") (simp add: spawn_blocking_def)
  qed
  have p: "lsf_job_parse_bsub_stdout bsub (fst (spawn_blocking run x n args w)) = Inr 0"
    for bsub x n args
    unfolding sp by (rule parse_no_output)
  consider (remote) "submit_method driver = LSF_SUBMIT_REMOTE_SHELL"
    | (local) "submit_method driver = LSF_SUBMIT_LOCAL_SHELL"
    | (other) "submit_method driver \<noteq> LSF_SUBMIT_REMOTE_SHELL"
        "submit_method driver \<noteq> LSF_SUBMIT_LOCAL_SHELL"
    by blast
  then show ?thesis
  proof cases
    case remote
    then show ?thesis
      unfolding lsf_driver_submit_shell_job_def a
      using p [of "bsub_cmd driver" "rsh_cmd driver" 2
          "[remote_lsf_server driver, Some (ert_join remote_argv '' '')]"]
      by (simp add: case_prod_beta)
  next
    case local
    then show ?thesis
      unfolding lsf_driver_submit_shell_job_def a
      using p [of "bsub_cmd driver" "bsub_cmd driver" "int (length remote_argv)"
          "map Some remote_argv"]
      by (simp add: case_prod_beta)
  next
    case other
    then show ?thesis
      unfolding lsf_driver_submit_shell_job_def a
      by (simp add: parse_no_output)
  qed
qed

lemma submit_job_failure:
  assumes "submit_method driver \<noteq> LSF_SUBMIT_INVALID"
    and "lsf_driver_submit_shell_job run driver
           (util_alloc_filename (Some run_path) name (Some ''LSF-stdout''))
           name submit_cmd num_cpu job_argv
           (log_event (Mutex_lock Submit_lock) (usleep (submit_sleep driver) w)) = (Inr 0, w3)"
  shows "lsf_driver_submit_job run driver submit_cmd num_cpu run_path name job_argv w =
           (if error_count driver + 1 \<ge> max_error_count driver
            then (Inl (Util_exit ''Maximum number of submit errors exceeded - giving up''),
                  log_event Error_count_incr
                    (log_event (Mutex_unlock Submit_lock)
                      (log_event (Hash_insert My_jobs ''0'') w3)))
            else (Inr (None, driver\<lparr>my_jobs := insert ''0'' (my_jobs driver),
                                      error_count := error_count driver + 1,
                                      debug_output := True\<rparr>),
                  usleep (submit_error_sleep driver)
                    (log_event Error_count_incr
                      (log_event (Mutex_unlock Submit_lock)
                        (log_event (Hash_insert My_jobs ''0'') w3)))))"
proof -
  have k: "sprintf_d 0 = ''0''" by (simp add: sprintf_d_def string_of_nat_0)
  show ?thesis
    using assms by (simp add: lsf_driver_submit_job_def Let_def k)
qed

lemma submit_job_no_output:
  assumes "\<forall>t x a. fst (run t x a) = []"
    and "resource_request driver = None"
    and "submit_method driver \<noteq> LSF_SUBMIT_INVALID"
  shows "\<exists>w'. lsf_driver_submit_job run driver submit_cmd num_cpu run_path name job_argv w =
           (if error_count driver + 1 \<ge> max_error_count driver
            then Inl (Util_exit ''Maximum number of submit errors exceeded - giving up'')
            else Inr (None, driver\<lparr>my_jobs := insert ''0'' (my_jobs driver),
                                     error_count := error_count driver + 1,
                                     debug_output := True\<rparr>), w')"
proof -
  let ?r = "lsf_driver_submit_shell_job run driver
           (util_alloc_filename (Some run_path) name (Some ''LSF-stdout''))
           name submit_cmd num_cpu job_argv
           (log_event (Mutex_lock Submit_lock) (usleep (submit_sleep driver) w))"
  have "fst ?r = Inr 0" by (rule submit_shell_job_no_output [OF assms(1,2)])
  then have "?r = (Inr 0, snd ?r)" by (metis surjective_pairing)
  from submit_job_failure [OF assms(3) this] show ?thesis
    by (cases "error_count driver + 1 \<ge> max_error_count driver") simp_all
qed

lemma repeated_failures_below_maximum:
  assumes "\<forall>t x a. fst (run t x a) = []"
    and "resource_request driver = None"
    and "submit_method driver \<noteq> LSF_SUBMIT_INVALID"
    and "error_count driver + int n < max_error_count driver"
  shows "\<exists>driver' w'.
           submit_repeatedly n run driver submit_cmd num_cpu run_path name job_argv w
             = (Inr driver', w')
           \<and> error_count driver' = error_count driver + int n
           \<and> max_error_count driver' = max_error_count driver
           \<and> resource_request driver' = None
           \<and> submit_method driver' = submit_method driver"
  using assms(2-4)
proof (induction n arbitrary: driver w)
  case 0
  then show ?case by simp
next
  case (Suc n)
  let ?d1 = "driver\<lparr>my_jobs := insert ''0'' (my_jobs driver),
                     error_count := error_count driver + 1, debug_output := True\<rparr>"
  have below: "\<not> error_count driver + 1 \<ge> max_error_count driver"
    using Suc.prems(3) by simp
  from submit_job_no_output [OF assms(1) Suc.prems(1,2),
      where submit_cmd = submit_cmd and num_cpu = num_cpu and run_path = run_path
        and name = name and job_argv = job_argv and w = w]
  obtain w1 where
    s1: "lsf_driver_submit_job run driver submit_cmd num_cpu run_path name job_argv w
           = (Inr (None, ?d1), w1)"
    using below by auto
  have "error_count ?d1 + int n < max_error_count ?d1" using Suc.prems(3) by simp
  from Suc.IH [of ?d1 w1, OF _ _ this] Suc.prems(1,2)
  obtain driver' w' where
    r: "submit_repeatedly n run ?d1 submit_cmd num_cpu run_path name job_argv w1 = (Inr driver', w')"
      "error_count driver' = error_count ?d1 + int n"
      "max_error_count driver' = max_error_count ?d1"
      "resource_request driver' = None"
      "submit_method driver' = submit_method ?d1"
    by auto
  have "submit_repeatedly (Suc n) run driver submit_cmd num_cpu run_path name job_argv w
          = (Inr driver', w')"
    using s1 r(1) by simp
  then show ?case using r(2-5) by simp
qed

lemma repeated_failures_reach_maximum:
  assumes "\<forall>t x a. fst (run t x a) = []"
    and "resource_request driver = None"
    and "submit_method driver \<noteq> LSF_SUBMIT_INVALID"
    and "error_count driver + int n = max_error_count driver"
    and "n \<ge> 1"
  shows "\<exists>w'. submit_repeatedly n run driver submit_cmd num_cpu run_path name job_argv w
           = (Inl (Util_exit ''Maximum number of submit errors exceeded - giving up''), w')"
  using assms(2-5)
proof (induction n arbitrary: driver w)
  case 0
  then show ?case by simp
next
  case (Suc n)
  from submit_job_no_output [OF assms(1) Suc.prems(1,2),
      where submit_cmd = submit_cmd and num_cpu = num_cpu and run_path = run_path
        and name = name and job_argv = job_argv and w = w]
  obtain w1 where
    s1: "lsf_driver_submit_job run driver submit_cmd num_cpu run_path name job_argv w =
           (if error_count driver + 1 \<ge> max_error_count driver
            then Inl (Util_exit ''Maximum number of submit errors exceeded - giving up'')
            else Inr (None, driver\<lparr>my_jobs := insert ''0'' (my_jobs driver),
                                     error_count := error_count driver + 1,
                                     debug_output := True\<rparr>), w1)"
    by blast
  show ?case
  proof (cases "n = 0")
    case True
    then have "error_count driver + 1 \<ge> max_error_count driver" using Suc.prems(3) by simp
    then show ?thesis using s1 by simp
  next
    case False
    let ?d1 = "driver\<lparr>my_jobs := insert ''0'' (my_jobs driver),
                     error_count := error_count driver + 1, debug_output := True\<rparr>"
    have below: "\<not> error_count driver + 1 \<ge> max_error_count driver"
      using Suc.prems(3) False by simp
    have "error_count ?d1 + int n = max_error_count ?d1" using Suc.prems(3) by simp
    moreover have "n \<ge> 1" using False by simp
    ultimately obtain w' where
      "submit_repeatedly n run ?d1 submit_cmd num_cpu run_path name job_argv w1
         = (Inl (Util_exit ''Maximum number of submit errors exceeded - giving up''), w')"
      using Suc.IH [of ?d1 w1] Suc.prems(1,2) by auto
    then show ?thesis using s1 below by simp
  qed
qed

lemma failing_submit_shell_job:
  "lsf_driver_submit_shell_job failing_invoker local_driver
          (util_alloc_filename (Some ''/tmp/run'') ''job42'' (Some ''LSF-stdout''))
          ''job42'' ''run.sh'' 1 []
          (log_event (Mutex_lock Submit_lock) (usleep (submit_sleep local_driver) world0))
     = (Inr 0,
        \<lparr>clock_usec = 0, files = Map.empty,
         trace = [Usleep 0, Mutex_lock Submit_lock,
                  Spawn_blocking ''bsub'' 7
                    [Some ''-o'', Some ''/tmp/run/job42.LSF-stdout'', Some ''-J'', Some ''job42'',
                     Some ''-n'', Some ''1'', Some ''run.sh'']]\<rparr>)"
proof -
  have a: "lsf_driver_alloc_cmd local_driver lsf_stdout ''job42'' ''run.sh'' 1 []
             = Inr [''-o'', lsf_stdout, ''-J'', ''job42'', ''-n'', ''1'', ''run.sh'']"
    for lsf_stdout
    by (simp add: lsf_driver_alloc_cmd_def alloc_quoted_resource_string_def
        alloc_quoted_resource_string_req_def driver_defs scan_defs)
  show ?thesis
    unfolding lsf_driver_submit_shell_job_def a
    by (simp add: failing_invoker_def parse_no_output util_alloc_filename_def driver_defs
        world_defs)
qed

lemma failing_submit_job:
  "lsf_driver_submit_job failing_invoker local_driver ''run.sh'' 1 ''/tmp/run'' ''job42'' [] world0
     = (Inr (None, local_driver\<lparr>my_jobs := {''0''}, error_count := 1, debug_output := True\<rparr>),
        \<lparr>clock_usec = 2000000, files = Map.empty,
         trace = [Usleep 0, Mutex_lock Submit_lock,
                  Spawn_blocking ''bsub'' 7
                    [Some ''-o'', Some ''/tmp/run/job42.LSF-stdout'', Some ''-J'', Some ''job42'',
                     Some ''-n'', Some ''1'', Some ''run.sh''],
                  Hash_insert My_jobs ''0'', Mutex_unlock Submit_lock, Error_count_incr,
                  Usleep 2000000]\<rparr>)"
proof -
  have m: "submit_method local_driver \<noteq> LSF_SUBMIT_INVALID" by (simp add: driver_defs)
  show ?thesis
    unfolding submit_job_failure [OF m failing_submit_shell_job]
    by (simp add: driver_defs world_defs)
qed

text \<open>
  \<^bold>\<open>C4.\<close> The error counter is not incremented under the submission lock: on a fresh
  driver whose submit command prints nothing (job id 0), the increment is in the trace
  and comes after the lock has been released.
\<close>

theorem error_count_incr_outside_lock:
  "fst (lsf_driver_submit_shell_job failing_invoker local_driver
          (util_alloc_filename (Some ''/tmp/run'') ''job42'' (Some ''LSF-stdout''))
          ''job42'' ''run.sh'' 1 []
          (log_event (Mutex_lock Submit_lock) (usleep (submit_sleep local_driver) world0)))
     = Inr 0
   \<and> Error_count_incr
       \<in> set (trace (snd (lsf_driver_submit_job failing_invoker local_driver ''run.sh'' 1
                            ''/tmp/run'' ''job42'' [] world0)))
   \<and> \<not> event_under_lock Submit_lock Error_count_incr False
         (trace (snd (lsf_driver_submit_job failing_invoker local_driver ''run.sh'' 1
                        ''/tmp/run'' ''job42'' [] world0)))"
  unfolding failing_submit_job failing_submit_shell_job by simp

text \<open>
  \<^bold>\<open>C4, as the code has it.\<close> A submission whose command yields the job id 0
  increments the error counter right after it has released the submission lock, not
  under it. If the counter has then reached \<open>max_error_count\<close> the process ends in
  \<open>util_exit\<close>; otherwise the submission sleeps \<open>submit_error_sleep\<close> and returns
  \<open>NULL\<close>, with the counter incremented (and the key \<open>0\<close> in \<open>my_jobs\<close>, debug
  output on). For a driver whose counter is 0 and whose maximum is \<open>N \<ge> 1\<close>, with a
  submit command that never prints anything: \<open>N - 1\<close> submissions in a row all return
  and leave the counter at \<open>N - 1\<close>, and \<open>N\<close> submissions end the process.
\<close>

theorem submit_failure_counts:
  assumes "submit_method driver \<noteq> LSF_SUBMIT_INVALID"
    and "lsf_driver_submit_shell_job run driver
           (util_alloc_filename (Some run_path) name (Some ''LSF-stdout''))
           name submit_cmd num_cpu job_argv
           (log_event (Mutex_lock Submit_lock) (usleep (submit_sleep driver) w)) = (Inr 0, w3)"
  shows "(\<exists>w'. lsf_driver_submit_job run driver submit_cmd num_cpu run_path name job_argv w =
            (if error_count driver + 1 \<ge> max_error_count driver
             then Inl (Util_exit ''Maximum number of submit errors exceeded - giving up'')
             else Inr (None, driver\<lparr>my_jobs := insert ''0'' (my_jobs driver),
                                      error_count := error_count driver + 1,
                                      debug_output := True\<rparr>), w')
          \<and> (\<exists>before. drop (length (trace w)) (trace w')
                = before @ [Mutex_unlock Submit_lock, Error_count_incr]
                  @ (if error_count driver + 1 \<ge> max_error_count driver then []
                     else [Usleep (submit_error_sleep driver)]))
          \<and> \<not> event_under_lock Submit_lock Error_count_incr False
                (drop (length (trace w)) (trace w')))
     \<and> ((\<forall>t x a. fst (run t x a) = []) \<and> resource_request driver = None
          \<and> error_count driver = 0 \<and> max_error_count driver = int N \<and> N \<ge> 1
        \<longrightarrow> (\<exists>driver' w'.
               submit_repeatedly (N - 1) run driver submit_cmd num_cpu run_path name job_argv w
                 = (Inr driver', w')
               \<and> error_count driver' = int N - 1)
            \<and> (\<exists>w'.
               submit_repeatedly N run driver submit_cmd num_cpu run_path name job_argv w
                 = (Inl (Util_exit ''Maximum number of submit errors exceeded - giving up''), w')))"
proof (intro conjI impI)
  let ?w2 = "log_event (Mutex_lock Submit_lock) (usleep (submit_sleep driver) w)"
  let ?w5 = "log_event Error_count_incr
               (log_event (Mutex_unlock Submit_lock) (log_event (Hash_insert My_jobs ''0'') w3))"
  let ?exit = "error_count driver + 1 \<ge> max_error_count driver"
  let ?w' = "if ?exit then ?w5 else usleep (submit_error_sleep driver) ?w5"
  let ?tail = "if ?exit then [] else [Usleep (submit_error_sleep driver)]"
  from submit_shell_job_trace [OF assms(2)] obtain evs where
    evs: "trace w3 = trace ?w2 @ evs" "\<forall>e \<in> set evs. \<exists>x n a. e = Spawn_blocking x n a"
    by blast
  have res: "lsf_driver_submit_job run driver submit_cmd num_cpu run_path name job_argv w =
            (if ?exit
             then Inl (Util_exit ''Maximum number of submit errors exceeded - giving up'')
             else Inr (None, driver\<lparr>my_jobs := insert ''0'' (my_jobs driver),
                                      error_count := error_count driver + 1,
                                      debug_output := True\<rparr>), ?w')"
    unfolding submit_job_failure [OF assms] by simp
  have tr: "drop (length (trace w)) (trace ?w')
          = ([Usleep (submit_sleep driver), Mutex_lock Submit_lock] @ evs
             @ [Hash_insert My_jobs ''0'']) @ [Mutex_unlock Submit_lock, Error_count_incr] @ ?tail"
    using evs(1) by (simp add: log_event_def usleep_def)
  have tr2: "drop (length (trace w)) (trace ?w')
          = [Usleep (submit_sleep driver), Mutex_lock Submit_lock]
            @ evs @ ([Hash_insert My_jobs ''0'', Mutex_unlock Submit_lock, Error_count_incr] @ ?tail)"
    unfolding tr by simp
  have nl: "\<not> event_under_lock Submit_lock Error_count_incr False (drop (length (trace w)) (trace ?w'))"
    unfolding tr2
    using event_under_lock_spawns [OF evs(2), of Error_count_incr Submit_lock True
        "[Hash_insert My_jobs ''0'', Mutex_unlock Submit_lock, Error_count_incr] @ ?tail"]
    by simp
  show "\<exists>w'. lsf_driver_submit_job run driver submit_cmd num_cpu run_path name job_argv w =
            (if ?exit
             then Inl (Util_exit ''Maximum number of submit errors exceeded - giving up'')
             else Inr (None, driver\<lparr>my_jobs := insert ''0'' (my_jobs driver),
                                      error_count := error_count driver + 1,
                                      debug_output := True\<rparr>), w')
          \<and> (\<exists>before. drop (length (trace w)) (trace w')
                = before @ [Mutex_unlock Submit_lock, Error_count_incr] @ ?tail)
          \<and> \<not> event_under_lock Submit_lock Error_count_incr False
                (drop (length (trace w)) (trace w'))"
    using res tr nl by blast
next
  assume a: "(\<forall>t x a. fst (run t x a) = []) \<and> resource_request driver = None
          \<and> error_count driver = 0 \<and> max_error_count driver = int N \<and> N \<ge> 1"
  then have e: "\<forall>t x a. fst (run t x a) = []" and r: "resource_request driver = None"
    and below: "error_count driver + int (N - 1) < max_error_count driver"
    and reach: "error_count driver + int N = max_error_count driver" and n: "N \<ge> 1"
    by auto
  from repeated_failures_below_maximum [OF e r assms(1) below,
      where submit_cmd = submit_cmd and num_cpu = num_cpu and run_path = run_path
        and name = name and job_argv = job_argv and w = w]
  show "\<exists>driver' w'.
               submit_repeatedly (N - 1) run driver submit_cmd num_cpu run_path name job_argv w
                 = (Inr driver', w')
               \<and> error_count driver' = int N - 1"
    using a by auto
  from repeated_failures_reach_maximum [OF e r assms(1) reach n]
  show "\<exists>w'. submit_repeatedly N run driver submit_cmd num_cpu run_path name job_argv w
                 = (Inl (Util_exit ''Maximum number of submit errors exceeded - giving up''), w')"
    by blast
qed

theorem submit_failure_counts_witness:
  "submit_method local_driver \<noteq> LSF_SUBMIT_INVALID
   \<and> fst (lsf_driver_submit_shell_job failing_invoker local_driver
          (util_alloc_filename (Some ''/tmp/run'') ''job42'' (Some ''LSF-stdout''))
          ''job42'' ''run.sh'' 1 []
          (log_event (Mutex_lock Submit_lock) (usleep (submit_sleep local_driver) world0)))
       = Inr 0
   \<and> error_count local_driver = 0
   \<and> max_error_count local_driver = 100
   \<and> fst (lsf_driver_submit_job failing_invoker local_driver ''run.sh'' 1 ''/tmp/run'' ''job42''
            [] world0)
       = Inr (None, local_driver\<lparr>my_jobs := {''0''}, error_count := 1, debug_output := True\<rparr>)
   \<and> (case fst (submit_repeatedly 99 failing_invoker local_driver ''run.sh'' 1 ''/tmp/run''
                   ''job42'' [] world0) of
         Inr driver' \<Rightarrow> error_count driver' = 99
       | Inl e \<Rightarrow> False)
   \<and> fst (submit_repeatedly 100 failing_invoker local_driver ''run.sh'' 1 ''/tmp/run''
            ''job42'' [] world0)
       = Inl (Util_exit ''Maximum number of submit errors exceeded - giving up'')"
proof -
  have m: "submit_method local_driver \<noteq> LSF_SUBMIT_INVALID" by (simp add: driver_defs)
  have c0: "error_count local_driver = 0" and mx: "max_error_count local_driver = 100"
    and my: "my_jobs local_driver = {}"
    by (simp_all add: driver_defs)
  have hyp: "(\<forall>t x a. fst (failing_invoker t x a) = []) \<and> resource_request local_driver = None
          \<and> error_count local_driver = 0 \<and> max_error_count local_driver = int 100
          \<and> (100::nat) \<ge> 1"
    by (simp add: failing_invoker_def driver_defs)
  note t = submit_failure_counts [OF m failing_submit_shell_job, where N = 100]
  from t [THEN conjunct1] obtain w1 where
    one: "lsf_driver_submit_job failing_invoker local_driver ''run.sh'' 1 ''/tmp/run'' ''job42''
            [] world0
          = (Inr (None, local_driver\<lparr>my_jobs := {''0''}, error_count := 1, debug_output := True\<rparr>),
             w1)"
    unfolding c0 mx my by auto
  from t [THEN conjunct2] hyp obtain driver' w' w'' where
    rep: "submit_repeatedly (100 - 1) failing_invoker local_driver ''run.sh'' 1 ''/tmp/run''
            ''job42'' [] world0 = (Inr driver', w')"
      "error_count driver' = int 100 - 1"
      "submit_repeatedly 100 failing_invoker local_driver ''run.sh'' 1 ''/tmp/run''
            ''job42'' [] world0
         = (Inl (Util_exit ''Maximum number of submit errors exceeded - giving up''), w'')"
    by blast
  have n99: "(100::nat) - 1 = 99" by simp
  show ?thesis
    using m failing_submit_shell_job c0 mx one rep unfolding n99 by simp
qed

subsection \<open>Composition of the resource request\<close>

text \<open>
  \<open>strstr\<close> finds no occurrence exactly when the needle is not a contiguous part of
  the string, and it finds the first occurrence.
\<close>

lemma strstr_None_iff: "strstr s needle = None \<longleftrightarrow> \<not> sublist needle s"
proof (induction s)
  case Nil
  then show ?case by simp
next
  case (Cons ch cs)
  then show ?case by (simp add: sublist_Cons_right)
qed

lemma prefix_of_long_append:
  assumes "prefix xs (ys @ zs)" and "length xs \<le> length ys"
  shows "prefix xs ys"
  using assms by (metis prefix_length_prefix prefix_append prefix_order.dual_order.refl append_prefixD prefixI)

lemma strstr_first_occurrence:
  assumes "\<not> sublist needle (pre @ butlast needle)" and "needle \<noteq> []"
  shows "strstr (pre @ needle @ rest) needle = Some (length pre)"
  using assms(1)
proof (induction pre)
  case Nil
  obtain ch cs where "needle @ rest = ch # cs" using assms(2) by (cases needle) auto
  then show ?case using prefixI [of "needle @ rest" needle rest]
    by (metis append_Nil list.size(3) prefixI strstr.simps(2))
next
  case (Cons ch pre)
  have ns: "\<not> sublist needle (pre @ butlast needle)"
    and np: "\<not> prefix needle (ch # pre @ butlast needle)"
    using Cons.prems by (auto simp: sublist_Cons_right)
  have len: "length needle \<le> length (ch # pre @ butlast needle)" by simp
  have "\<not> prefix needle (ch # pre @ needle @ rest)"
  proof
    assume "prefix needle (ch # pre @ needle @ rest)"
    moreover have "needle = butlast needle @ [last needle]"
      using assms(2) by simp
    then have "ch # pre @ needle @ rest = (ch # pre @ butlast needle) @ ([last needle] @ rest)"
      by (metis append.assoc append_Cons)
    ultimately have "prefix needle ((ch # pre @ butlast needle) @ ([last needle] @ rest))"
      by simp
    from prefix_of_long_append [OF this len] np show False by simp
  qed
  then show ?case using Cons.IH [OF ns] by simp
qed

lemma strstr_first_char:
  "ch \<notin> set xs \<Longrightarrow> strstr (xs @ ch # ys) [ch] = Some (length xs)"
  by (induction xs) auto

lemma ert_join_Cons: "ys \<noteq> [] \<Longrightarrow> ert_join (x # ys) sep = x @ sep @ ert_join ys sep"
  by (cases ys) simp_all

lemma composed_without_select:
  assumes "resource_request driver = Some template"
    and "\<not> sublist ''select['' template"
  shows "alloc_composed_resource_request driver select_list
           = Inr (template @ '' select['' @ ert_join select_list '' && '' @ '']'')"
proof -
  have "strstr template ''select['' = None" using assms(2) by (simp add: strstr_None_iff)
  then show ?thesis using assms(1) by (simp add: alloc_composed_resource_request_def)
qed

lemma composed_splice:
  assumes "resource_request driver = Some (head @ CHR '']'' # post)"
    and "strstr (head @ CHR '']'' # post) ''select['' = Some pos"
    and "strstr (drop pos (head @ CHR '']'' # post)) '']'' = Some off"
    and "pos + off = length head"
  shows "alloc_composed_resource_request driver select_list
           = Inr (head @ '' && '' @ ert_join select_list '' && '' @ '']'' @ CHR '' '' # post)"
  unfolding alloc_composed_resource_request_def assms(1) option.case Let_def assms(2) assms(3)
    assms(4)
  by simp

lemma composed_with_select:
  assumes "resource_request driver = Some (pre @ ''select['' @ body @ '']'' @ post)"
    and "\<not> sublist ''select['' (pre @ ''select'')"
    and "CHR '']'' \<notin> set body"
  shows "alloc_composed_resource_request driver select_list
           = Inr (pre @ ''select['' @ body @ '' && '' @ ert_join select_list '' && '' @ '']''
                  @ '' '' @ post)"
proof -
  define head where "head = pre @ ''select['' @ body"
  have tmpl: "pre @ ''select['' @ body @ '']'' @ post = head @ CHR '']'' # post"
    by (simp add: head_def)
  have pos: "strstr (pre @ ''select['' @ body @ '']'' @ post) ''select['' = Some (length pre)"
    using strstr_first_occurrence [of "''select[''" pre "body @ '']'' @ post"] assms(2) by simp
  have "CHR '']'' \<notin> set (''select['' @ body)" using assms(3) by simp
  from strstr_first_char [OF this, of post]
  have off: "strstr (drop (length pre) (pre @ ''select['' @ body @ '']'' @ post)) '']''
               = Some (length (''select['' @ body))"
    by simp
  have size: "length pre + length (''select['' @ body) = length head"
    by (simp add: head_def)
  have "alloc_composed_resource_request driver select_list
           = Inr (head @ '' && '' @ ert_join select_list '' && '' @ '']'' @ CHR '' '' # post)"
    by (rule composed_splice [OF assms(1) [unfolded tmpl] pos [unfolded tmpl] off [unfolded tmpl] size])
  then show ?thesis by (simp add: head_def)
qed

text \<open>
  \<^bold>\<open>C7.\<close> The composed resource string for a template and a non-empty list of
  excluded hosts. A template without \<open>select[\<close> gets the clause appended:
  \<open>select[\<close>, one predicate \<open>hname!='host'\<close> per excluded host in the order of the
  list, joined by \<open>&&\<close>, and \<open>]\<close>. A template \<open>pre select[body] post\<close> whose
  first \<open>select[\<close> is the one after \<open>pre\<close> (and whose \<open>body\<close> has no \<open>]\<close>) keeps
  \<open>pre\<close> and \<open>post\<close> as they are and has the one clause
  \<open>select[body && hname!='host1' && ...]\<close> in the place of the old one (followed by one
  added blank).
\<close>

theorem composed_resource_request:
  assumes "exclude_hosts driver \<noteq> []" and "resource_request driver = Some template"
  shows "(\<not> sublist ''select['' template
          \<longrightarrow> alloc_quoted_resource_string_req driver
                = Inr (Some (template @ '' select[''
                       @ ert_join (map exclude_host_predicate (exclude_hosts driver)) '' && ''
                       @ '']'')))
       \<and> (template = pre @ ''select['' @ body @ '']'' @ post
            \<and> \<not> sublist ''select['' (pre @ ''select'') \<and> CHR '']'' \<notin> set body
          \<longrightarrow> alloc_quoted_resource_string_req driver
                = Inr (Some (pre @ ''select[''
                       @ ert_join (body # map exclude_host_predicate (exclude_hosts driver)) '' && ''
                       @ '']'' @ '' '' @ post)))"
proof (intro conjI impI)
  let ?list = "map exclude_host_predicate (exclude_hosts driver)"
  have req: "alloc_quoted_resource_string_req driver =
          (case alloc_composed_resource_request driver ?list of
             Inl e \<Rightarrow> Inl e | Inr req \<Rightarrow> Inr (Some req))"
    using assms by (simp add: alloc_quoted_resource_string_req_def Let_def)
  {
    assume "\<not> sublist ''select['' template"
    from composed_without_select [OF assms(2) this, of ?list]
    show "alloc_quoted_resource_string_req driver
                = Inr (Some (template @ '' select['' @ ert_join ?list '' && '' @ '']''))"
      unfolding req by simp
  }
  {
    assume a: "template = pre @ ''select['' @ body @ '']'' @ post
            \<and> \<not> sublist ''select['' (pre @ ''select'') \<and> CHR '']'' \<notin> set body"
    then have r: "resource_request driver = Some (pre @ ''select['' @ body @ '']'' @ post)"
      using assms(2) by simp
    have j: "ert_join (body # ?list) '' && '' = body @ '' && '' @ ert_join ?list '' && ''"
      using assms(1) by (simp add: ert_join_Cons)
    from composed_with_select [OF r, of ?list] a
    show "alloc_quoted_resource_string_req driver
                = Inr (Some (pre @ ''select['' @ ert_join (body # ?list) '' && ''
                       @ '']'' @ '' '' @ post))"
      unfolding req j by simp
  }
qed

theorem composed_resource_request_witness:
  "exclude_hosts exclusion_driver \<noteq> []
   \<and> resource_request exclusion_driver = Some ''span[hosts=1] select[mem>100] rusage[mem=50]''
   \<and> \<not> sublist ''select['' ''span[hosts=1] select''
   \<and> alloc_quoted_resource_string_req exclusion_driver
       = Inr (Some (''span[hosts=1] select[mem>100 && hname!='' @ [CHR 0x27] @ ''n1'' @ [CHR 0x27]
                    @ '' && hname!='' @ [CHR 0x27] @ ''n2'' @ [CHR 0x27] @ '']  rusage[mem=50]''))
   \<and> resource_request plain_driver = Some ''span[hosts=1]''
   \<and> \<not> sublist ''select['' ''span[hosts=1]''
   \<and> alloc_quoted_resource_string_req plain_driver
       = Inr (Some (''span[hosts=1] select[hname!='' @ [CHR 0x27] @ ''n1'' @ [CHR 0x27]
                    @ '' && hname!='' @ [CHR 0x27] @ ''n2'' @ [CHR 0x27] @ '']''))"
proof -
  have h1: "exclude_hosts exclusion_driver \<noteq> []"
    and r1: "resource_request exclusion_driver = Some ''span[hosts=1] select[mem>100] rusage[mem=50]''"
    and e1: "exclude_hosts exclusion_driver = [''n1'', ''n2'']"
    by (simp_all add: exclusion_driver_def)
  have h2: "exclude_hosts plain_driver \<noteq> []"
    and r2: "resource_request plain_driver = Some ''span[hosts=1]''"
    and e2: "exclude_hosts plain_driver = [''n1'', ''n2'']"
    by (simp_all add: plain_driver_def)
  have n1: "\<not> sublist ''select['' ''span[hosts=1] select''"
    by (simp add: sublist_code)
  have n2: "\<not> sublist ''select['' ''span[hosts=1]''"
    by (simp add: sublist_code)
  have shape: "''span[hosts=1] select[mem>100] rusage[mem=50]''
          = ''span[hosts=1] '' @ ''select['' @ ''mem>100'' @ '']'' @ '' rusage[mem=50]''
        \<and> \<not> sublist ''select['' (''span[hosts=1] '' @ ''select'')
        \<and> CHR '']'' \<notin> set ''mem>100''"
    using n1 by simp
  note t1 = composed_resource_request [OF h1 r1, where pre = "''span[hosts=1] ''"
      and body = "''mem>100''" and post = "'' rusage[mem=50]''", THEN conjunct2, rule_format,
      OF shape]
  note t2 = composed_resource_request [OF h2 r2, THEN conjunct1, rule_format, OF n2]
  show ?thesis
    using h1 r1 n1 r2 n2 t1 t2 unfolding e1 e2
    by (simp add: exclude_host_predicate_def)
qed

text \<open>The composed strings of the two drivers, computed, and the witness of \<^bold>\<open>C8\<close>.\<close>

lemma exclusion_driver_req:
  "alloc_quoted_resource_string_req exclusion_driver
       = Inr (Some (''span[hosts=1] select[mem>100 && hname!='' @ [CHR 0x27] @ ''n1'' @ [CHR 0x27]
                    @ '' && hname!='' @ [CHR 0x27] @ ''n2'' @ [CHR 0x27] @ '']  rusage[mem=50]''))"
  by (simp add: alloc_quoted_resource_string_req_def alloc_composed_resource_request_def
      exclusion_driver_def exclude_host_predicate_def Let_def)

lemma plain_driver_req:
  "alloc_quoted_resource_string_req plain_driver
       = Inr (Some (''span[hosts=1] select[hname!='' @ [CHR 0x27] @ ''n1'' @ [CHR 0x27]
                    @ '' && hname!='' @ [CHR 0x27] @ ''n2'' @ [CHR 0x27] @ '']''))"
  by (simp add: alloc_quoted_resource_string_req_def alloc_composed_resource_request_def
      plain_driver_def exclude_host_predicate_def Let_def)

theorem quoted_iff_remote_shell_witness:
  "submit_method exclusion_driver = LSF_SUBMIT_REMOTE_SHELL
   \<and> alloc_quoted_resource_string exclusion_driver
       = Inr (Some ([CHR 0x22] @ ''span[hosts=1] select[mem>100 && hname!='' @ [CHR 0x27] @ ''n1''
                    @ [CHR 0x27] @ '' && hname!='' @ [CHR 0x27] @ ''n2'' @ [CHR 0x27]
                    @ '']  rusage[mem=50]'' @ [CHR 0x22]))
   \<and> submit_method plain_driver = LSF_SUBMIT_LOCAL_SHELL
   \<and> alloc_quoted_resource_string plain_driver
       = Inr (Some (''span[hosts=1] select[hname!='' @ [CHR 0x27] @ ''n1'' @ [CHR 0x27]
                    @ '' && hname!='' @ [CHR 0x27] @ ''n2'' @ [CHR 0x27] @ '']''))
   \<and> lsf_driver_alloc_cmd plain_driver ''out'' ''job42'' ''run.sh'' 1 []
       = Inr [''-o'', ''out'', ''-J'', ''job42'', ''-n'', ''1'', ''-R'',
              ''span[hosts=1] select[hname!='' @ [CHR 0x27] @ ''n1'' @ [CHR 0x27]
                @ '' && hname!='' @ [CHR 0x27] @ ''n2'' @ [CHR 0x27] @ '']'',
              ''run.sh'']"
proof -
  have m1: "submit_method exclusion_driver = LSF_SUBMIT_REMOTE_SHELL"
    by (simp add: exclusion_driver_def remote_driver_def)
  have m2: "submit_method plain_driver = LSF_SUBMIT_LOCAL_SHELL"
    by (simp add: plain_driver_def driver_defs)
  note q1 = quoted_iff_remote_shell [OF exclusion_driver_req, THEN conjunct1]
  note q2 = quoted_iff_remote_shell [OF plain_driver_req, THEN conjunct1]
  have cmd: "lsf_driver_alloc_cmd plain_driver ''out'' ''job42'' ''run.sh'' 1 []
       = Inr [''-o'', ''out'', ''-J'', ''job42'', ''-n'', ''1'', ''-R'',
              ''span[hosts=1] select[hname!='' @ [CHR 0x27] @ ''n1'' @ [CHR 0x27]
                @ '' && hname!='' @ [CHR 0x27] @ ''n2'' @ [CHR 0x27] @ '']'',
              ''run.sh'']"
    unfolding lsf_driver_alloc_cmd_def q2 m2
    by (simp add: plain_driver_def driver_defs scan_defs)
  show ?thesis
    using m1 m2 q1 q2 cmd by simp
qed

end
